theory Spec2Isabelle
  imports Main
begin

unbundle bit_operations_syntax

section \<open>Python values, dictionaries and events\<close>

text \<open>
  The values that occur as attribute names and attribute values of input events and as
  dictionary keys: \<open>None\<close>, unbounded integers, strings and tuples. All of them are
  hashable. Floating-point readouts (an axis \<open>value\<close>) are not modelled; the code drops
  that attribute before it compares anything.
\<close>

datatype pyval = PNone | PInt int | PStr string | PTuple "pyval list"

text \<open>
  A Python \<open>dict\<close> keeps insertion order, so it is an association list whose keys are
  pairwise different. A joystick pattern is the \<open>tuple[tuple]\<close> of \<open>(key, value)\<close> pairs
  that \<open>_convert_event\<close> builds; as a tuple it is compared position by position.
\<close>

type_synonym pydict = "(pyval \<times> pyval) list"
type_synonym pattern = "(pyval \<times> pyval) list"

text \<open>A \<open>pygame.Event\<close>: its \<open>type\<close> and its \<open>__dict__\<close>.\<close>

record event =
  etype :: int
  edict :: pydict

text \<open>What a parameter annotated \<open>Any\<close> can receive: a plain value, a dict or an event.\<close>

datatype pyobj = Val pyval | Dict pydict | Event event

text \<open>The exceptions that the modelled code raises. A result \<open>Inl e\<close> is a call that raised
  \<open>e\<close>; the model does not follow the state after a raise.\<close>

datatype error = ValueError | TypeError | IndexError | KeyError | AttributeError

text \<open>\<open>d[k] = v\<close>: an existing key keeps its position, a new key goes to the end.\<close>

fun dict_set :: "'k \<Rightarrow> 'v \<Rightarrow> ('k \<times> 'v) list \<Rightarrow> ('k \<times> 'v) list" where
  "dict_set k v [] = [(k, v)]"
| "dict_set k v ((k', v') # d) =
     (if k' = k then (k', v) # d else (k', v') # dict_set k v d)"

text \<open>\<open>d.pop(k)\<close> for a key that is present.\<close>

definition dict_pop :: "'k \<Rightarrow> ('k \<times> 'v) list \<Rightarrow> ('k \<times> 'v) list" where
  "dict_pop k d = filter (\<lambda>(k', v). k' \<noteq> k) d"

text \<open>\<open>d.setdefault(k, []).append(x)\<close>.\<close>

fun setdefault_append :: "'k \<Rightarrow> 'a \<Rightarrow> ('k \<times> 'a list) list \<Rightarrow> ('k \<times> 'a list) list" where
  "setdefault_append k x [] = [(k, [x])]"
| "setdefault_append k x ((k', xs) # d) =
     (if k' = k then (k', xs @ [x]) # d else (k', xs) # setdefault_append k x d)"

section \<open>joy\_map.py: the joystick table\<close>

definition invalid_params :: "pyval list" where
  "invalid_params = [PStr ''value'', PStr ''instance_id'', PStr ''joy'']"

text \<open>
  \<open>JoyMap._joy_binds: dict[tuple[tuple] | None, list[str]]\<close>. The dataclass has this one
  field, so the table stands for the object; a method returns the updated table.
\<close>

type_synonym JoyMap = "(pattern option \<times> string list) list"

text \<open>The loop of \<open>_convert_event\<close> over \<open>event_dict.items()\<close>, with \<open>pairs\<close> as accumulator.\<close>

fun convert_loop :: "pydict \<Rightarrow> pattern \<Rightarrow> pattern" where
  "convert_loop [] pairs = pairs"
| "convert_loop ((key, val) # items) pairs =
     (if key \<in> set invalid_params then convert_loop items pairs
      else convert_loop items (pairs @ [(key, val)]))"

definition convert_event :: "pyobj \<Rightarrow> error + pattern" where
  "convert_event ev =
     (case ev of
        Event e \<Rightarrow> Inr (convert_loop (edict e) [])
      | Dict d \<Rightarrow> Inr (convert_loop d [])
      | Val v \<Rightarrow> Inl ValueError)"

text \<open>\<open>dict((key, value) for key, value in event_key)\<close>.\<close>

definition convert_pairs :: "pattern \<Rightarrow> pydict" where
  "convert_pairs event_key = fold (\<lambda>(key, val) d. dict_set key val d) event_key []"

definition JoyMap_get :: "JoyMap \<Rightarrow> pyobj \<Rightarrow> string list option \<Rightarrow> error + string list" where
  "JoyMap_get self ev dflt =
     (case convert_event ev of
        Inl e \<Rightarrow> Inl e
      | Inr key \<Rightarrow>
          (let dflt' = (case dflt of None \<Rightarrow> [] | Some d \<Rightarrow> d)
           in Inr (case map_of self (Some key) of Some bind_list \<Rightarrow> bind_list | None \<Rightarrow> dflt')))"

text \<open>The result is \<open>Inr None\<close> for a bind that exists unbound, \<open>Inl ValueError\<close> for a
  name that is in no list.\<close>

fun get_bound_joystick_event :: "JoyMap \<Rightarrow> string \<Rightarrow> error + pydict option" where
  "get_bound_joystick_event [] bind_name = Inl ValueError"
| "get_bound_joystick_event ((key, bind_list) # rest) bind_name =
     (if bind_name \<in> set bind_list then
        (case key of None \<Rightarrow> Inr None | Some k \<Rightarrow> Inr (Some (convert_pairs k)))
      else get_bound_joystick_event rest bind_name)"

text \<open>\<open>list.remove\<close> takes out the first occurrence only, which is \<open>remove1\<close>; the second
  loop pops every key collected in \<open>dead_keys\<close>.\<close>

definition JoyMap_remove_bind :: "JoyMap \<Rightarrow> string \<Rightarrow> JoyMap" where
  "JoyMap_remove_bind self bind_name =
     (let stripped = map (\<lambda>(key, bind_list).
             (key, if bind_name \<in> set bind_list then remove1 bind_name bind_list else bind_list)) self;
          dead_keys = map fst (filter (\<lambda>(key, bind_list). length bind_list = 0) stripped)
      in fold dict_pop dead_keys stripped)"

text \<open>\<open>except ValueError\<close> catches the lookup's not-found only; any other error passes.\<close>

definition JoyMap_generate_bind :: "JoyMap \<Rightarrow> string \<Rightarrow> pyobj \<Rightarrow> error + JoyMap" where
  "JoyMap_generate_bind self bind_name default_joystick_data =
     (case get_bound_joystick_event self bind_name of
        Inr found \<Rightarrow> Inr self
      | Inl e \<Rightarrow>
          (if e \<noteq> ValueError then Inl e
           else if default_joystick_data \<noteq> Val PNone then
             (case convert_event default_joystick_data of
                Inl e' \<Rightarrow> Inl e'
              | Inr key \<Rightarrow> Inr (setdefault_append (Some key) bind_name self))
           else Inr (setdefault_append None bind_name self)))"

text \<open>\<open>_rebind\<close> takes the table key itself (a pattern or \<open>None\<close>).\<close>

definition JoyMap_rebind' :: "JoyMap \<Rightarrow> string \<Rightarrow> pattern option \<Rightarrow> JoyMap" where
  "JoyMap_rebind' self bind_name new_joystick_data =
     setdefault_append new_joystick_data bind_name (JoyMap_remove_bind self bind_name)"

definition JoyMap_rebind :: "JoyMap \<Rightarrow> string \<Rightarrow> pyobj \<Rightarrow> error + JoyMap" where
  "JoyMap_rebind self bind_name new_joystick_data =
     (if new_joystick_data \<noteq> Val PNone then
        (case convert_event new_joystick_data of
           Inl e \<Rightarrow> Inl e
         | Inr key \<Rightarrow> Inr (JoyMap_rebind' self bind_name (Some key)))
      else Inr (JoyMap_rebind' self bind_name None))"

text \<open>\<open>merge\<close> reads \<open>other\<close> while it changes \<open>self\<close>; the two are different objects.\<close>

definition JoyMap_merge :: "JoyMap \<Rightarrow> JoyMap \<Rightarrow> JoyMap" where
  "JoyMap_merge self other =
     fold (\<lambda>(joy_data, bind_list) s. fold (\<lambda>bind s'. JoyMap_rebind' s' bind joy_data) bind_list s)
       other self"

definition JoyMap_pack_binds :: "JoyMap \<Rightarrow> (string \<times> pattern option) list" where
  "JoyMap_pack_binds self =
     fold (\<lambda>(joy_data, bind_list) packed. fold (\<lambda>bind p. dict_set bind joy_data p) bind_list packed)
       self []"

section \<open>Properties of the joystick table\<close>

text \<open>A dict has pairwise different keys.\<close>

definition wf_dict :: "('k \<times> 'v) list \<Rightarrow> bool" where
  "wf_dict d = distinct (map fst d)"

text \<open>Every bind name of the table, list after list.\<close>

definition bind_names :: "JoyMap \<Rightarrow> string list" where
  "bind_names self = concat (map snd self)"

text \<open>No bind name occurs twice, neither within one list nor in two lists.\<close>

definition one_list_per_bind :: "JoyMap \<Rightarrow> bool" where
  "one_list_per_bind self = distinct (bind_names self)"

definition joy_invariant :: "JoyMap \<Rightarrow> bool" where
  "joy_invariant self = (wf_dict self \<and> one_list_per_bind self)"

text \<open>What \<open>get_bound_joystick_event\<close> returns for a bind found under \<open>key\<close>.\<close>

definition bound_result :: "pattern option \<Rightarrow> error + pydict option" where
  "bound_result key = (case key of None \<Rightarrow> Inr None | Some k \<Rightarrow> Inr (Some (convert_pairs k)))"

text \<open>The table read bind by bind: each bind name with the key of its slot.\<close>

definition flat_binds :: "JoyMap \<Rightarrow> (string \<times> pattern option) list" where
  "flat_binds other = concat (map (\<lambda>(k, bl). map (\<lambda>b. (b, k)) bl) other)"

text \<open>The items of an event representation, and what makes one: an event or a dict.\<close>

definition event_items :: "pyobj \<Rightarrow> pydict" where
  "event_items ev = (case ev of Event e \<Rightarrow> edict e | Dict d \<Rightarrow> d | Val v \<Rightarrow> [])"

definition is_event_repr :: "pyobj \<Rightarrow> bool" where
  "is_event_repr ev = (case ev of Event e \<Rightarrow> wf_dict (edict e) | Dict d \<Rightarrow> wf_dict d | Val v \<Rightarrow> False)"

text \<open>The items left when the noise attributes are dropped, in their order.\<close>

definition drop_noise :: "pydict \<Rightarrow> pydict" where
  "drop_noise d = filter (\<lambda>(k, v). k \<notin> set invalid_params) d"

text \<open>An argument annotated \<open>Optional[dict]\<close>: \<open>None\<close> or a dict.\<close>

definition optional_dict :: "pyobj \<Rightarrow> bool" where
  "optional_dict d = (case d of Val v \<Rightarrow> v = PNone | Dict x \<Rightarrow> wf_dict x | Event e \<Rightarrow> False)"

section \<open>key\_map.py: the key table\<close>

text \<open>
  key\_map.py is not among the sources. key\_manager.py fixes the shape of its data: a
  \<open>KeyBind\<close> is built as \<open>KeyBind(bind_name=..., mod=...)\<close> and read through \<open>bind_name\<close> and
  \<open>mod\<close>, and \<open>KeyMap.key_binds\<close> is a dict from a key code (or \<open>None\<close>) to a list of
  \<open>KeyBind\<close>. The field \<open>mod\<close> is written \<open>mod'\<close> here. It holds whatever the caller passed.
\<close>

record KeyBind =
  bind_name :: string
  mod' :: pyobj

type_synonym KeyMap = "(pyval \<times> KeyBind list) list"

text \<open>A dict key must be hashable: a dict is not, and neither is a pygame event.\<close>

definition hashable :: "pyobj \<Rightarrow> error + pyval" where
  "hashable x = (case x of Val v \<Rightarrow> Inr v | Dict d \<Rightarrow> Inl TypeError | Event e \<Rightarrow> Inl TypeError)"

text \<open>
  Modelled from the spec: \<open>KeyMap.get_bound_key\<close>, whose code (key\_map.py) is missing.
  Spec 4.1: "\<open>get_bound_key(name) \<rightarrow> (key_code, mod)\<close>: linear scan of all lists; fails with
  NotFound when the name is absent from every list." NotFound is the \<open>ValueError\<close> that
  \<open>_rebind_key\<close> catches.
\<close>

fun get_bound_key :: "KeyMap \<Rightarrow> string \<Rightarrow> error + (pyval \<times> pyobj)" where
  "get_bound_key [] name = Inl ValueError"
| "get_bound_key ((key_code, binds) # rest) name =
     (case find (\<lambda>kb. bind_name kb = name) binds of
        Some kb \<Rightarrow> Inr (key_code, mod' kb)
      | None \<Rightarrow> get_bound_key rest name)"

text \<open>
  Modelled from the spec: \<open>KeyMap.remove_bind\<close>, whose code (key\_map.py) is missing.
  Spec 4.1: "\<open>remove_bind(name)\<close>: scans all slots, strips the name from any list containing
  it, and deletes any slot whose list becomes empty."
\<close>

definition KeyMap_remove_bind :: "KeyMap \<Rightarrow> string \<Rightarrow> KeyMap" where
  "KeyMap_remove_bind self name =
     filter (\<lambda>(key_code, binds). binds \<noteq> [])
       (map (\<lambda>(key_code, binds). (key_code, filter (\<lambda>kb. bind_name kb \<noteq> name) binds)) self)"

text \<open>
  Modelled from the spec: \<open>KeyMap.rebind\<close>, whose code (key\_map.py) is missing.
  Spec 4.1: "\<open>rebind(KeyBinding, new_key=None)\<close>: removes the bind name from its current slot
  (wherever it is), then inserts the new \<open>KeyBinding\<close> under \<open>new_key\<close>."
\<close>

definition KeyMap_rebind :: "KeyMap \<Rightarrow> KeyBind \<Rightarrow> pyval \<Rightarrow> KeyMap" where
  "KeyMap_rebind self new_bind new_key =
     setdefault_append new_key new_bind (KeyMap_remove_bind self (bind_name new_bind))"

text \<open>
  Modelled from the spec: \<open>KeyMap.generate_bind\<close>, whose code (key\_map.py) is missing.
  Spec 4.1: "\<open>generate_bind(name, default_key=None, default_mod=None)\<close>: if \<open>name\<close> already
  has an entry anywhere in the table, no-op; else insert \<open>KeyBinding(name, default_mod)\<close>
  under \<open>default_key\<close> (which may be \<open>None\<close>)."
\<close>

definition KeyMap_generate_bind :: "KeyMap \<Rightarrow> string \<Rightarrow> pyobj \<Rightarrow> pyobj \<Rightarrow> error + KeyMap" where
  "KeyMap_generate_bind self name default_key default_mod =
     (case get_bound_key self name of
        Inr found \<Rightarrow> Inr self
      | Inl e \<Rightarrow>
          (case hashable default_key of
             Inl e' \<Rightarrow> Inl e'
           | Inr k \<Rightarrow> Inr (setdefault_append k \<lparr>bind_name = name, mod' = default_mod\<rparr> self)))"

section \<open>key\_manager.py: the listener\<close>

text \<open>Event types and the empty modifier mask, as pygame 2 defines them.\<close>

definition KEYDOWN :: int where "KEYDOWN = 768"
definition JOYAXISMOTION :: int where "JOYAXISMOTION = 1536"
definition JOYHATMOTION :: int where "JOYHATMOTION = 1538"
definition JOYBUTTONDOWN :: int where "JOYBUTTONDOWN = 1539"
definition KMOD_NONE :: int where "KMOD_NONE = 0"

text \<open>
  A handler, by name. \<open>runs_sequential\<close> tells whether it carries the attribute
  \<open>_runs_sequential\<close>. A class is named as well.
\<close>

datatype callable = Callable (cname: string) (runs_sequential: bool)

type_synonym cls = string

text \<open>
  The attributes of one \<open>KeyListener\<close> instance. \<open>__init__\<close> creates the three indexes;
  \<open>handle\<close> and \<open>_assigned_classes\<close> belong to \<open>BaseManager\<close> (base\_manager.py is not among
  the sources). Every dict is an association list in insertion order.
\<close>

record KeyListener =
  handle :: string
  key_hooks :: "(string \<times> (bool \<times> (pyval \<times> callable list) list) list) list"
  class_listeners :: "(string \<times> (bool \<times> (pyval \<times> (callable \<times> cls) list) list) list) list"
  class_listener_binds :: "(callable \<times> string list) list"
  assigned_classes :: "(cls \<times> callable list) list"

datatype level = WARNING | INFO

text \<open>
  What a method of the listener runs on: the class attributes \<open>KeyListener.key_map\<close> and
  \<open>KeyListener.joy_map\<close>, which \<open>self.key_map\<close> and \<open>self.joy_map\<close> read since no instance
  attribute of that name is ever set, the records sent to the logger, and the instance \<open>self\<close> (\<open>listener\<close>).
\<close>

record shared =
  key_map :: KeyMap
  joy_map :: JoyMap
  logged :: "level list"

record frame = shared +
  listener :: KeyListener

text \<open>\<open>__init__\<close>: the three indexes start empty.\<close>

definition KeyListener_init :: "string \<Rightarrow> KeyListener" where
  "KeyListener_init h =
     \<lparr>handle = h, key_hooks = [], class_listeners = [], class_listener_binds = [],
      assigned_classes = []\<rparr>"

text \<open>\<open>d.get(k, dflt)\<close>.\<close>

definition dict_get :: "('k \<times> 'v) list \<Rightarrow> 'k \<Rightarrow> 'v \<Rightarrow> 'v" where
  "dict_get d k dflt = (case map_of d k of None \<Rightarrow> dflt | Some v \<Rightarrow> v)"

text \<open>\<open>getattr(event, name, None)\<close> reads the event's \<open>__dict__\<close>.\<close>

definition getattr_event :: "event \<Rightarrow> string \<Rightarrow> pyval" where
  "getattr_event ev name = dict_get (edict ev) (PStr name) PNone"

text \<open>
  \<open>a is b\<close> on two \<open>int\<close> objects. CPython keeps one object for each integer from \<open>-5\<close> to
  \<open>256\<close>, so there the two are the same object exactly when they are equal; two larger
  equal integers need not be the same object, and are taken not to be.
\<close>

definition is_int :: "int \<Rightarrow> int \<Rightarrow> bool" where
  "is_int a b = (a = b \<and> - 5 \<le> a \<and> a \<le> 256)"

text \<open>\<open>mod & mod_keys\<close> needs two integers; anything else raises \<open>TypeError\<close>.\<close>

definition validate_input :: "KeyBind \<Rightarrow> event \<Rightarrow> error + bool" where
  "validate_input key_bind ev =
     (let key_changed = getattr_event ev ''key'';
          mod_keys = getattr_event ev ''mod''
      in if key_changed \<noteq> PNone then
           (if mod' key_bind = Val PNone then Inr True
            else if mod_keys \<noteq> PNone then
              (case (mod' key_bind, mod_keys) of
                 (Val (PInt m), PInt mk) \<Rightarrow> Inr (m AND mk \<noteq> 0 \<or> is_int m mk)
               | _ \<Rightarrow> Inl TypeError)
            else Inr False)
         else Inr False)"

record CallableSets =
  concurrent_functions :: "callable list"
  sequential_functions :: "callable list"
  concurrent_methods :: "(callable \<times> cls) list"
  sequential_methods :: "(callable \<times> cls) list"

text \<open>\<open>index.get(bind, {}).get(concurrent, {}).get(event_type, [])\<close>.\<close>

definition hooks_for ::
  "(string \<times> (bool \<times> (pyval \<times> 'a list) list) list) list \<Rightarrow> string \<Rightarrow> bool \<Rightarrow> pyval \<Rightarrow> 'a list" where
  "hooks_for index bind concurrent event_type =
     dict_get (dict_get (dict_get index bind []) concurrent []) event_type []"

text \<open>The first loop of \<open>_get_callables\<close>: the names of the key binds that pass
  \<open>_validate_input\<close>, in the order of the list.\<close>

fun validated_binds :: "event \<Rightarrow> KeyBind list \<Rightarrow> error + string list" where
  "validated_binds ev [] = Inr []"
| "validated_binds ev (key_bind # rest) =
     (case validate_input key_bind ev of
        Inl e \<Rightarrow> Inl e
      | Inr ok \<Rightarrow>
          (case validated_binds ev rest of
             Inl e \<Rightarrow> Inl e
           | Inr names \<Rightarrow> Inr (if ok then bind_name key_bind # names else names)))"

text \<open>The bind names an event resolves to: the validated key binds, then the joystick
  binds of the event's pattern.\<close>

definition resolved_binds :: "frame \<Rightarrow> event \<Rightarrow> error + string list" where
  "resolved_binds fr ev =
     (case validated_binds ev (dict_get (key_map fr) (getattr_event ev ''key'') []) of
        Inl e \<Rightarrow> Inl e
      | Inr key_names \<Rightarrow>
          (case JoyMap_get (joy_map fr) (Event ev) (Some []) of
             Inl e \<Rightarrow> Inl e
           | Inr joy_names \<Rightarrow> Inr (key_names @ joy_names)))"

definition get_callables :: "frame \<Rightarrow> event \<Rightarrow> error + CallableSets" where
  "get_callables fr ev =
     (case resolved_binds fr ev of
        Inl e \<Rightarrow> Inl e
      | Inr names \<Rightarrow>
          (let ty = PInt (etype ev) in
           Inr \<lparr>concurrent_functions = concat (map (\<lambda>b. hooks_for (key_hooks (listener fr)) b True ty) names),
                sequential_functions = concat (map (\<lambda>b. hooks_for (key_hooks (listener fr)) b False ty) names),
                concurrent_methods = concat (map (\<lambda>b. hooks_for (class_listeners (listener fr)) b True ty) names),
                sequential_methods = concat (map (\<lambda>b. hooks_for (class_listeners (listener fr)) b False ty) names)\<rparr>))"

text \<open>\<open>logger.warning\<close> and \<open>logger.info\<close>.\<close>

definition log_record :: "level \<Rightarrow> frame \<Rightarrow> frame" where
  "log_record l fr = fr\<lparr>logged := logged fr @ [l]\<rparr>"

definition clear_bind :: "frame \<Rightarrow> string \<Rightarrow> bool \<Rightarrow> frame" where
  "clear_bind fr name eliminate_bind =
     (if eliminate_bind then
        (case map_of (key_hooks (listener fr)) name of
           None \<Rightarrow> log_record WARNING fr
         | Some bind \<Rightarrow>
             fr\<lparr>listener := (listener fr)\<lparr>key_hooks := dict_pop name (key_hooks (listener fr))\<rparr>,
                key_map := KeyMap_remove_bind (key_map fr) name,
                joy_map := JoyMap_remove_bind (joy_map fr) name\<rparr>)
      else
        (let call_list = map_of (key_hooks (listener fr)) name;
             class_call_list = map_of (class_listeners (listener fr)) name
         in if call_list = None \<and> class_call_list = None then log_record WARNING fr
            else
              (let fr1 = (if call_list \<noteq> None \<and> call_list \<noteq> Some [] then
                            (log_record INFO fr)\<lparr>listener := (listener fr)\<lparr>key_hooks :=
                               dict_set name [] (key_hooks (listener fr))\<rparr>\<rparr>
                          else fr)
               in if class_call_list \<noteq> None \<and> class_call_list \<noteq> Some [] then
                    (log_record INFO fr1)\<lparr>listener := (listener fr1)\<lparr>class_listeners :=
                       dict_set name [] (class_listeners (listener fr1))\<rparr>\<rparr>
                  else fr1)))"

text \<open>\<open>_rebind_joystick\<close> and \<open>_rebind_key\<close> return the previous trigger, or \<open>None\<close> after
  a warning when the lookup raised \<open>ValueError\<close>.\<close>

datatype trigger = NoTrigger | JoyTrigger "pydict option" | KeyTrigger pyval pyobj

definition rebind_joystick :: "frame \<Rightarrow> string \<Rightarrow> pyobj \<Rightarrow> error + (trigger \<times> frame)" where
  "rebind_joystick fr key_bind_name new_joystick_data =
     (case get_bound_joystick_event (joy_map fr) key_bind_name of
        Inl e \<Rightarrow> (if e = ValueError then Inr (NoTrigger, log_record WARNING fr) else Inl e)
      | Inr old_bind \<Rightarrow>
          (case JoyMap_rebind (joy_map fr) key_bind_name new_joystick_data of
             Inl e \<Rightarrow> Inl e
           | Inr joy_map' \<Rightarrow> Inr (JoyTrigger old_bind, fr\<lparr>joy_map := joy_map'\<rparr>)))"

definition rebind_key :: "frame \<Rightarrow> string \<Rightarrow> pyobj \<Rightarrow> pyobj \<Rightarrow> error + (trigger \<times> frame)" where
  "rebind_key fr key_bind_name new_key new_mod =
     (case get_bound_key (key_map fr) key_bind_name of
        Inl e \<Rightarrow> (if e = ValueError then Inr (NoTrigger, log_record WARNING fr) else Inl e)
      | Inr (old_key, old_mod) \<Rightarrow>
          (case hashable new_key of
             Inl e \<Rightarrow> Inl e
           | Inr k \<Rightarrow>
               Inr (KeyTrigger old_key old_mod,
                    fr\<lparr>key_map := KeyMap_rebind (key_map fr) \<lparr>bind_name = key_bind_name, mod' = new_mod\<rparr> k\<rparr>)))"

text \<open>Truth value of an object: \<open>None\<close>, \<open>0\<close>, and the empty string, tuple and dict are false.\<close>

definition truthy :: "pyobj \<Rightarrow> bool" where
  "truthy x = (case x of
      Val PNone \<Rightarrow> False | Val (PInt i) \<Rightarrow> i \<noteq> 0 | Val (PStr s) \<Rightarrow> s \<noteq> [] | Val (PTuple t) \<Rightarrow> t \<noteq> []
    | Dict d \<Rightarrow> d \<noteq> [] | Event e \<Rightarrow> True)"

definition is_dict :: "pyobj \<Rightarrow> bool" where
  "is_dict x = (case x of Dict d \<Rightarrow> True | _ \<Rightarrow> False)"

text \<open>
  \<open>rebind(key_bind_name, *args, **kwds)\<close>. \<open>new_bind\<close> is the first positional argument if
  there is one, else \<open>kwds.get("new_key")\<close>; the keyword \<open>new_joystick_data\<close> is only tested,
  never read into \<open>new_bind\<close>.
\<close>

definition rebind ::
  "frame \<Rightarrow> string \<Rightarrow> pyobj list \<Rightarrow> (string \<times> pyobj) list \<Rightarrow> error + (trigger \<times> frame)" where
  "rebind fr key_bind_name args kwds =
     (let new_bind = (if length args \<noteq> 0 then args ! 0 else dict_get kwds ''new_key'' (Val PNone))
      in if truthy (dict_get kwds ''new_joystick_data'' (Val PNone)) \<or> is_dict new_bind then
           rebind_joystick fr key_bind_name new_bind
         else
           (let mod_keys = (if length args > 1 then args ! 1 else dict_get kwds ''new_mod'' (Val PNone))
            in rebind_key fr key_bind_name new_bind mod_keys))"

section \<open>key\_manager.py: registration\<close>

text \<open>
  The loop of \<open>bind\<close> over \<open>enumerate(args)\<close>: the first dict stops it and becomes
  \<open>default_joystick_data\<close>; before that, position 0 is \<open>default_key\<close> and position 1 is
  \<open>default_mod\<close>. The state is \<open>(is_stick, default_key, default_mod, default_joystick_data)\<close>.
\<close>

fun bind_args :: "nat \<Rightarrow> pyobj list \<Rightarrow> bool \<times> pyobj \<times> pyobj \<times> pyobj \<Rightarrow> bool \<times> pyobj \<times> pyobj \<times> pyobj" where
  "bind_args index [] st = st"
| "bind_args index (arg # args) (is_stick, default_key, default_mod, default_joystick_data) =
     (if is_dict arg then (True, default_key, default_mod, arg)
      else bind_args (Suc index) args
             (if index = 0 then (is_stick, arg, default_mod, default_joystick_data)
              else if index = 1 then (is_stick, default_key, arg, default_joystick_data)
              else (is_stick, default_key, default_mod, default_joystick_data)))"

text \<open>\<open>name in d.keys()\<close> for the dict that \<open>bind\<close> found among its arguments.\<close>

definition has_key :: "pyobj \<Rightarrow> string \<Rightarrow> bool" where
  "has_key d name = (case d of Dict items \<Rightarrow> PStr name \<in> fst ` set items | _ \<Rightarrow> False)"

text \<open>
  \<open>bind(key_bind_name, *args, **kwds)\<close> up to the \<open>return decorator\<close>: it makes sure the bind
  is in a table and fixes the event type that the decorator will use.
\<close>

definition bind ::
  "frame \<Rightarrow> string \<Rightarrow> pyobj list \<Rightarrow> (string \<times> pyobj) list \<Rightarrow> error + (pyobj \<times> frame)" where
  "bind fr key_bind_name args kwds =
     (case bind_args 0 args (False, dict_get kwds ''default_key'' (Val PNone),
                             dict_get kwds ''default_mod'' (Val PNone),
                             dict_get kwds ''default_joystick_data'' (Val PNone)) of
        (is_stick, default_key, default_mod, default_joystick_data) \<Rightarrow>
          if is_stick then
            (case JoyMap_generate_bind (joy_map fr) key_bind_name default_joystick_data of
               Inl e \<Rightarrow> Inl e
             | Inr joy_map' \<Rightarrow>
                 (let default_stick_event =
                        (if default_joystick_data \<noteq> Val PNone then
                           (if has_key default_joystick_data ''axis'' then JOYAXISMOTION
                            else if has_key default_joystick_data ''hat'' then JOYHATMOTION
                            else JOYBUTTONDOWN)
                         else JOYBUTTONDOWN)
                  in Inr (dict_get kwds ''event_type'' (Val (PInt default_stick_event)),
                          fr\<lparr>joy_map := joy_map'\<rparr>)))
          else
            (case KeyMap_generate_bind (key_map fr) key_bind_name default_key default_mod of
               Inl e \<Rightarrow> Inl e
             | Inr key_map' \<Rightarrow>
                 Inr (dict_get kwds ''event_type'' (Val (PInt KEYDOWN)), fr\<lparr>key_map := key_map'\<rparr>)))"

text \<open>
  The three \<open>setdefault\<close> calls that lead to the list of handlers of
  \<open>(bind, concurrent, event_type)\<close>, and the index with that list replaced.
\<close>

definition index_put ::
  "(string \<times> (bool \<times> (pyval \<times> 'a list) list) list) list \<Rightarrow> string \<Rightarrow> bool \<Rightarrow> pyval \<Rightarrow> 'a list \<Rightarrow>
   (string \<times> (bool \<times> (pyval \<times> 'a list) list) list) list" where
  "index_put index name concurrent event_type listeners =
     (let event_dict = dict_get index name [];
          hooks = dict_get event_dict concurrent []
      in dict_set name (dict_set concurrent (dict_set event_type listeners hooks) event_dict) index)"

text \<open>\<open>decorator(responder)\<close>, the function that \<open>bind\<close> returns. The event type is a dict
  key here, so it has to be hashable.\<close>

definition decorator :: "KeyListener \<Rightarrow> string \<Rightarrow> pyobj \<Rightarrow> callable \<Rightarrow> error + KeyListener" where
  "decorator this key_bind_name event_type responder =
     (let is_concurrent = (\<not> runs_sequential responder) in
      case hashable event_type of
        Inl e \<Rightarrow> Inl e
      | Inr ty \<Rightarrow>
          (let listeners = hooks_for (key_hooks this) key_bind_name is_concurrent ty;
               listeners' = (if responder \<notin> set listeners then listeners @ [responder] else listeners)
           in Inr (this\<lparr>key_hooks := index_put (key_hooks this) key_bind_name is_concurrent ty listeners'\<rparr>)))"

text \<open>\<open>_capture_method(cls, method, tag_data)\<close> with \<open>tag_data = (key_bind_name, default_key,
  default_mod, event_type, default_joystick_data)\<close>.\<close>

definition capture_method ::
  "frame \<Rightarrow> cls \<Rightarrow> callable \<Rightarrow> string \<times> pyobj \<times> pyobj \<times> pyobj \<times> pyobj \<Rightarrow> error + frame" where
  "capture_method fr c method tag_data =
     (case tag_data of (key_bind_name, default_key, default_mod, event_type, default_joystick_data) \<Rightarrow>
       (let is_concurrent = (\<not> runs_sequential method);
            tables = (if default_joystick_data \<noteq> Val PNone then
                        (case JoyMap_generate_bind (joy_map fr) key_bind_name default_joystick_data of
                           Inl e \<Rightarrow> Inl e | Inr joy_map' \<Rightarrow> Inr (fr\<lparr>joy_map := joy_map'\<rparr>))
                      else
                        (case KeyMap_generate_bind (key_map fr) key_bind_name default_key default_mod of
                           Inl e \<Rightarrow> Inl e | Inr key_map' \<Rightarrow> Inr (fr\<lparr>key_map := key_map'\<rparr>)))
        in case tables of
             Inl e \<Rightarrow> Inl e
           | Inr fr1 \<Rightarrow>
               (case hashable event_type of
                  Inl e \<Rightarrow> Inl e
                | Inr ty \<Rightarrow>
                    (let this = listener fr1;
                         listeners = hooks_for (class_listeners this) key_bind_name is_concurrent ty
                     in Inr (fr1\<lparr>listener := this
                          \<lparr>class_listeners := index_put (class_listeners this) key_bind_name
                              is_concurrent ty (listeners @ [(method, c)]),
                           class_listener_binds := setdefault_append method key_bind_name
                              (class_listener_binds this),
                           assigned_classes := setdefault_append c method (assigned_classes this)\<rparr>\<rparr>)))))"

text \<open>\<open>@listener.bind(key_bind_name, *args, **kwds)\<close> over the definition of \<open>responder\<close>:
  the call of \<open>bind\<close>, then the decorator it returned applied to \<open>responder\<close>.\<close>

definition bind_responder ::
  "string \<Rightarrow> pyobj list \<Rightarrow> (string \<times> pyobj) list \<Rightarrow> callable \<Rightarrow> frame \<Rightarrow> error + frame" where
  "bind_responder key_bind_name args kwds responder fr =
     (case bind fr key_bind_name args kwds of
        Inl e \<Rightarrow> Inl e
      | Inr (event_type, fr1) \<Rightarrow>
          (case decorator (listener fr1) key_bind_name event_type responder of
             Inl e \<Rightarrow> Inl e
           | Inr this \<Rightarrow> Inr (fr1\<lparr>listener := this\<rparr>)))"

section \<open>The class and its instances\<close>

text \<open>
  The objects behind \<open>KeyListener\<close>. An attribute value is one of the tables, one of the
  indexes or a handle. A namespace is the \<open>__dict__\<close> of the class or of an instance.
\<close>

datatype attr =
    KeyMapAttr KeyMap
  | JoyMapAttr JoyMap
  | HandleAttr string
  | FuncIndexAttr "(string \<times> (bool \<times> (pyval \<times> callable list) list) list) list"
  | MethIndexAttr "(string \<times> (bool \<times> (pyval \<times> (callable \<times> cls) list) list) list) list"
  | InverseAttr "(callable \<times> string list) list"
  | ClassesAttr "(cls \<times> callable list) list"

type_synonym namespace = "(string \<times> attr) list"

text \<open>
  The heap: the namespace of the class \<open>KeyListener\<close>, the instances that
  \<open>KeyListener._listeners\<close> holds, each by its handle with its own namespace, and the
  records sent to the logger.
\<close>

record heap =
  class_dict :: namespace
  instance_dicts :: "(string \<times> namespace) list"
  records :: "level list"

text \<open>The class body: \<open>key_map: KeyMap = KeyMap()\<close> and \<open>joy_map: JoyMap = JoyMap()\<close>, with no
  listener yet.\<close>

definition KeyListener_class :: heap where
  "KeyListener_class =
     \<lparr>class_dict = [(''key_map'', KeyMapAttr []), (''joy_map'', JoyMapAttr [])],
      instance_dicts = [], records = []\<rparr>"

text \<open>
  The namespace of an instance after \<open>__init__(handle)\<close>: \<open>BaseManager.__init__\<close> is taken
  to set \<open>handle\<close> and \<open>_assigned_classes\<close> (base\_manager.py is not among the sources),
  \<open>KeyListener.__init__\<close> sets the three indexes. It assigns neither \<open>key_map\<close> nor \<open>joy_map\<close>.
\<close>

definition init_dict :: "string \<Rightarrow> namespace" where
  "init_dict h =
     [(''handle'', HandleAttr h), (''_assigned_classes'', ClassesAttr []),
      (''_key_hooks'', FuncIndexAttr []), (''_class_listeners'', MethIndexAttr []),
      (''_class_listener_binds'', InverseAttr [])]"

text \<open>\<open>getKeyListener(handle)\<close>: \<open>_listeners.setdefault(handle, KeyListener(handle))\<close>.\<close>

definition getKeyListener :: "heap \<Rightarrow> string \<Rightarrow> heap" where
  "getKeyListener w h =
     (case map_of (instance_dicts w) h of
        Some d \<Rightarrow> w
      | None \<Rightarrow> w\<lparr>instance_dicts := instance_dicts w @ [(h, init_dict h)]\<rparr>)"

text \<open>\<open>self.name\<close> for the instance with namespace \<open>d\<close>: the instance's own attribute if it
  has one of that name, else the attribute of the class.\<close>

definition getattr_self :: "heap \<Rightarrow> namespace \<Rightarrow> string \<Rightarrow> attr option" where
  "getattr_self w d name =
     (case map_of d name of Some a \<Rightarrow> Some a | None \<Rightarrow> map_of (class_dict w) name)"

definition as_key_map :: "attr option \<Rightarrow> KeyMap option" where
  "as_key_map a = (case a of Some (KeyMapAttr x) \<Rightarrow> Some x | _ \<Rightarrow> None)"

definition as_joy_map :: "attr option \<Rightarrow> JoyMap option" where
  "as_joy_map a = (case a of Some (JoyMapAttr x) \<Rightarrow> Some x | _ \<Rightarrow> None)"

definition as_handle :: "attr option \<Rightarrow> string option" where
  "as_handle a = (case a of Some (HandleAttr x) \<Rightarrow> Some x | _ \<Rightarrow> None)"

definition as_func_index ::
  "attr option \<Rightarrow> (string \<times> (bool \<times> (pyval \<times> callable list) list) list) list option" where
  "as_func_index a = (case a of Some (FuncIndexAttr x) \<Rightarrow> Some x | _ \<Rightarrow> None)"

definition as_meth_index ::
  "attr option \<Rightarrow> (string \<times> (bool \<times> (pyval \<times> (callable \<times> cls) list) list) list) list option" where
  "as_meth_index a = (case a of Some (MethIndexAttr x) \<Rightarrow> Some x | _ \<Rightarrow> None)"

definition as_inverse :: "attr option \<Rightarrow> (callable \<times> string list) list option" where
  "as_inverse a = (case a of Some (InverseAttr x) \<Rightarrow> Some x | _ \<Rightarrow> None)"

definition as_classes :: "attr option \<Rightarrow> (cls \<times> callable list) list option" where
  "as_classes a = (case a of Some (ClassesAttr x) \<Rightarrow> Some x | _ \<Rightarrow> None)"

text \<open>
  What a method called on the listener of handle \<open>h\<close> works on: every attribute it reads
  through \<open>self\<close>, found by \<open>getattr_self\<close>. There is no frame when the handle is unknown or
  an attribute is missing.
\<close>

definition enter :: "heap \<Rightarrow> string \<Rightarrow> frame option" where
  "enter w h =
     (case map_of (instance_dicts w) h of
        None \<Rightarrow> None
      | Some d \<Rightarrow>
          Option.bind (as_key_map (getattr_self w d ''key_map'')) (\<lambda>km.
          Option.bind (as_joy_map (getattr_self w d ''joy_map'')) (\<lambda>jm.
          Option.bind (as_handle (getattr_self w d ''handle'')) (\<lambda>hd.
          Option.bind (as_func_index (getattr_self w d ''_key_hooks'')) (\<lambda>kh.
          Option.bind (as_meth_index (getattr_self w d ''_class_listeners'')) (\<lambda>cl.
          Option.bind (as_inverse (getattr_self w d ''_class_listener_binds'')) (\<lambda>cb.
          Option.bind (as_classes (getattr_self w d ''_assigned_classes'')) (\<lambda>ac.
            Some \<lparr>key_map = km, joy_map = jm, logged = records w,
                  listener = \<lparr>handle = hd, key_hooks = kh, class_listeners = cl,
                              class_listener_binds = cb, assigned_classes = ac\<rparr>\<rparr>))))))))"

text \<open>
  The methods change the objects in place: \<open>self.name\<close> is never assigned outside
  \<open>__init__\<close>. So a change of the object that \<open>self.name\<close> refers to is a change of the
  attribute where \<open>getattr_self\<close> found it, in the instance or in the class.
\<close>

definition mutate :: "string \<Rightarrow> string \<times> attr \<Rightarrow> heap \<Rightarrow> heap" where
  "mutate h upd w =
     (case upd of (name, a) \<Rightarrow>
       (case map_of (instance_dicts w) h of
          None \<Rightarrow> w
        | Some d \<Rightarrow>
            if map_of d name \<noteq> None then
              w\<lparr>instance_dicts := dict_set h (dict_set name a d) (instance_dicts w)\<rparr>
            else if map_of (class_dict w) name \<noteq> None then
              w\<lparr>class_dict := dict_set name a (class_dict w)\<rparr>
            else w))"

text \<open>The heap when the method returns: each object as the method left it.\<close>

definition leave :: "heap \<Rightarrow> string \<Rightarrow> frame \<Rightarrow> heap" where
  "leave w h fr =
     fold (mutate h)
       [(''key_map'', KeyMapAttr (key_map fr)),
        (''joy_map'', JoyMapAttr (joy_map fr)),
        (''_key_hooks'', FuncIndexAttr (key_hooks (listener fr))),
        (''_class_listeners'', MethIndexAttr (class_listeners (listener fr))),
        (''_class_listener_binds'', InverseAttr (class_listener_binds (listener fr))),
        (''_assigned_classes'', ClassesAttr (assigned_classes (listener fr)))]
       (w\<lparr>records := logged fr\<rparr>)"

text \<open>A method that returns the frame or raises, called on the listener of handle \<open>h\<close>. The
  heap after a raise is not followed: it is left as it was, as for an unknown handle.\<close>

definition call :: "heap \<Rightarrow> string \<Rightarrow> (frame \<Rightarrow> error + frame) \<Rightarrow> heap" where
  "call w h method =
     (case enter w h of
        None \<Rightarrow> w
      | Some fr \<Rightarrow> (case method fr of Inl e \<Rightarrow> w | Inr fr' \<Rightarrow> leave w h fr'))"

text \<open>The four operations on the listener of handle \<open>h\<close>.\<close>

definition do_bind ::
  "heap \<Rightarrow> string \<Rightarrow> string \<Rightarrow> pyobj list \<Rightarrow> (string \<times> pyobj) list \<Rightarrow> callable \<Rightarrow> heap" where
  "do_bind w h key_bind_name args kwds responder =
     call w h (bind_responder key_bind_name args kwds responder)"

definition do_capture_method ::
  "heap \<Rightarrow> string \<Rightarrow> cls \<Rightarrow> callable \<Rightarrow> string \<times> pyobj \<times> pyobj \<times> pyobj \<times> pyobj \<Rightarrow> heap" where
  "do_capture_method w h c method tag_data = call w h (\<lambda>fr. capture_method fr c method tag_data)"

definition do_rebind :: "heap \<Rightarrow> string \<Rightarrow> string \<Rightarrow> pyobj list \<Rightarrow> (string \<times> pyobj) list \<Rightarrow> heap" where
  "do_rebind w h key_bind_name args kwds =
     call w h (\<lambda>fr. case rebind fr key_bind_name args kwds of
                       Inl e \<Rightarrow> Inl e | Inr (old_bind, fr') \<Rightarrow> Inr fr')"

definition do_clear_bind :: "heap \<Rightarrow> string \<Rightarrow> string \<Rightarrow> bool \<Rightarrow> heap" where
  "do_clear_bind w h name eliminate_bind = call w h (\<lambda>fr. Inr (clear_bind fr name eliminate_bind))"

text \<open>The heaps that the program builds: from the class body, by \<open>getKeyListener\<close> and by
  the four operations on any listener.\<close>

inductive reachable :: "heap \<Rightarrow> bool" where
  class_body: "reachable KeyListener_class"
| get_listener: "reachable w \<Longrightarrow> reachable (getKeyListener w h)"
| bound: "reachable w \<Longrightarrow> reachable (do_bind w h key_bind_name args kwds responder)"
| captured: "reachable w \<Longrightarrow> reachable (do_capture_method w h c method tag_data)"
| rebound: "reachable w \<Longrightarrow> reachable (do_rebind w h key_bind_name args kwds)"
| cleared: "reachable w \<Longrightarrow> reachable (do_clear_bind w h name eliminate_bind)"

section \<open>file\_parser.py: the JSON collaborator\<close>

text \<open>
  What \<open>json.load\<close> returns, and what \<open>json.dump\<close> writes: \<open>null\<close>, integers, strings, arrays
  (Python lists) and objects (Python dicts with string keys). The text of the file is not
  modelled, only the JSON value it holds.
\<close>

datatype jval = JNull | JInt int | JStr string | JList "jval list" | JObj "(string \<times> jval) list"

text \<open>\<open>json.dump\<close> writes a tuple as an array.\<close>

fun to_json :: "pyval \<Rightarrow> jval" where
  "to_json PNone = JNull"
| "to_json (PInt i) = JInt i"
| "to_json (PStr s) = JStr s"
| "to_json (PTuple xs) = JList (map to_json xs)"

definition trigger_to_json :: "pattern option \<Rightarrow> jval" where
  "trigger_to_json joy_data =
     (case joy_data of
        None \<Rightarrow> JNull
      | Some pairs \<Rightarrow> JList (map (\<lambda>(key, val). JList [to_json key, to_json val]) pairs))"

text \<open>
  \<open>JSONParser.save\<close>: the file holds \<open>{"keys": bind_keys, "controller": bind_joysticks}\<close>.
  \<open>bind_keys\<close> is \<open>key_map.pack_binds()\<close>, whose code is missing; it is a parameter here.
\<close>

definition JSONParser_save :: "jval \<Rightarrow> JoyMap \<Rightarrow> jval" where
  "JSONParser_save bind_keys joy_map' =
     JObj [(''keys'', bind_keys),
           (''controller'', JObj (map (\<lambda>(bind, joy_data). (bind, trigger_to_json joy_data))
                                    (JoyMap_pack_binds joy_map')))]"

text \<open>\<open>for x in v\<close>: a list gives its elements, a string its characters, a dict its keys;
  \<open>None\<close> and an integer are not iterable.\<close>

definition py_iter :: "jval \<Rightarrow> error + jval list" where
  "py_iter v =
     (case v of
        JList xs \<Rightarrow> Inr xs
      | JStr s \<Rightarrow> Inr (map (\<lambda>c. JStr [c]) s)
      | JObj d \<Rightarrow> Inr (map (\<lambda>(k, x). JStr k) d)
      | JNull \<Rightarrow> Inl TypeError
      | JInt i \<Rightarrow> Inl TypeError)"

text \<open>\<open>v[i]\<close> for \<open>i = 0, 1\<close>: a dict loaded from JSON has string keys only.\<close>

definition py_index :: "jval \<Rightarrow> nat \<Rightarrow> error + jval" where
  "py_index v i =
     (case v of
        JList xs \<Rightarrow> (if i < length xs then Inr (xs ! i) else Inl IndexError)
      | JStr s \<Rightarrow> (if i < length s then Inr (JStr [s ! i]) else Inl IndexError)
      | JObj d \<Rightarrow> Inl KeyError
      | JNull \<Rightarrow> Inl TypeError
      | JInt i \<Rightarrow> Inl TypeError)"

text \<open>A loaded value as a member of a dict key: lists and dicts are not hashable.\<close>

definition hash_jval :: "jval \<Rightarrow> error + pyval" where
  "hash_jval v =
     (case v of
        JNull \<Rightarrow> Inr PNone
      | JInt i \<Rightarrow> Inr (PInt i)
      | JStr s \<Rightarrow> Inr (PStr s)
      | JList xs \<Rightarrow> Inl TypeError
      | JObj d \<Rightarrow> Inl TypeError)"

text \<open>The inner loop of \<open>_unpack_joystick\<close>: \<open>(data_point[0], data_point[1])\<close> for each
  \<open>data_point\<close>.\<close>

fun data_points :: "jval list \<Rightarrow> error + (jval \<times> jval) list" where
  "data_points [] = Inr []"
| "data_points (data_point # rest) =
     (case py_index data_point 0 of
        Inl e \<Rightarrow> Inl e
      | Inr a \<Rightarrow>
          (case py_index data_point 1 of
             Inl e \<Rightarrow> Inl e
           | Inr b \<Rightarrow> (case data_points rest of Inl e \<Rightarrow> Inl e | Inr ps \<Rightarrow> Inr ((a, b) # ps))))"

text \<open>Hashing \<open>fixed_joy_data\<close>, the tuple of those pairs, when it is used as a key.\<close>

fun hash_pairs :: "(jval \<times> jval) list \<Rightarrow> error + pattern" where
  "hash_pairs [] = Inr []"
| "hash_pairs ((a, b) # rest) =
     (case hash_jval a of
        Inl e \<Rightarrow> Inl e
      | Inr k \<Rightarrow>
          (case hash_jval b of
             Inl e \<Rightarrow> Inl e
           | Inr v \<Rightarrow> (case hash_pairs rest of Inl e \<Rightarrow> Inl e | Inr ps \<Rightarrow> Inr ((k, v) # ps))))"

text \<open>The outer loop of \<open>_unpack_joystick\<close> over \<open>maps.items()\<close>, with \<open>unpacked_dict\<close> as
  accumulator.\<close>

fun unpack_loop :: "(string \<times> jval) list \<Rightarrow> JoyMap \<Rightarrow> error + JoyMap" where
  "unpack_loop [] unpacked_dict = Inr unpacked_dict"
| "unpack_loop ((name, joy_data) # rest) unpacked_dict =
     (case py_iter joy_data of
        Inl e \<Rightarrow> Inl e
      | Inr points \<Rightarrow>
          (case data_points points of
             Inl e \<Rightarrow> Inl e
           | Inr joy_data_points \<Rightarrow>
               (case hash_pairs joy_data_points of
                  Inl e \<Rightarrow> Inl e
                | Inr fixed_joy_data \<Rightarrow>
                    unpack_loop rest (setdefault_append (Some fixed_joy_data) name unpacked_dict))))"

definition unpack_joystick :: "jval \<Rightarrow> error + JoyMap" where
  "unpack_joystick maps =
     (case maps of JObj items \<Rightarrow> unpack_loop items [] | _ \<Rightarrow> Inl AttributeError)"

text \<open>The joystick half of \<open>JSONParser.load\<close>: \<open>_unpack_joystick(maps.get("controller", {}))\<close>.\<close>

definition JSONParser_load_joystick :: "jval \<Rightarrow> error + JoyMap" where
  "JSONParser_load_joystick file =
     (case file of
        JObj maps \<Rightarrow> unpack_joystick (dict_get maps ''controller'' (JObj []))
      | _ \<Rightarrow> Inl AttributeError)"

section \<open>Properties of the listener\<close>

text \<open>An argument annotated \<open>Optional[int]\<close>: \<open>None\<close> or an integer.\<close>

definition optional_int :: "pyobj \<Rightarrow> bool" where
  "optional_int x = (case x of Val PNone \<Rightarrow> True | Val (PInt i) \<Rightarrow> True | _ \<Rightarrow> False)"

text \<open>
  The modifier rule in the words of the spec: a constraint \<open>None\<close> always matches; otherwise
  the constraint shares a set bit with the event's modifier bitmask \<open>M\<close>, or equals it.
\<close>

definition mod_matches :: "pyobj \<Rightarrow> int \<Rightarrow> bool" where
  "mod_matches md M = (case md of Val PNone \<Rightarrow> True | Val (PInt m) \<Rightarrow> m AND M \<noteq> 0 \<or> m = M | _ \<Rightarrow> False)"

text \<open>Every bind name of the key table.\<close>

definition key_names :: "KeyMap \<Rightarrow> string list" where
  "key_names self = map bind_name (concat (map snd self))"

text \<open>The value that \<open>rebind\<close> takes for \<open>new_bind\<close>, and the test that sends it to
  \<open>_rebind_joystick\<close>.\<close>

definition new_bind_of :: "pyobj list \<Rightarrow> (string \<times> pyobj) list \<Rightarrow> pyobj" where
  "new_bind_of args kwds = (if length args \<noteq> 0 then args ! 0 else dict_get kwds ''new_key'' (Val PNone))"

definition joystick_route :: "pyobj list \<Rightarrow> (string \<times> pyobj) list \<Rightarrow> bool" where
  "joystick_route args kwds =
     (truthy (dict_get kwds ''new_joystick_data'' (Val PNone)) \<or> is_dict (new_bind_of args kwds))"

text \<open>
  A call of \<open>rebind\<close> that fits one of its two declared signatures,
  \<open>rebind(key_bind_name, new_key: Optional[int] = None, new_mod: Optional[int] = None)\<close> or
  \<open>rebind(key_bind_name, new_joystick_data: Optional[dict] = None)\<close>: each parameter is
  given at most once, by position or by keyword, with a value of its type.
\<close>

definition key_call :: "pyobj list \<Rightarrow> (string \<times> pyobj) list \<Rightarrow> bool" where
  "key_call args kwds =
     (length args \<le> 2 \<and> list_all optional_int args \<and> wf_dict kwds \<and>
      list_all (\<lambda>(k, v). k \<in> set (drop (length args) [''new_key'', ''new_mod'']) \<and> optional_int v) kwds)"

definition joystick_call :: "pyobj list \<Rightarrow> (string \<times> pyobj) list \<Rightarrow> bool" where
  "joystick_call args kwds =
     (length args \<le> 1 \<and> list_all optional_dict args \<and> wf_dict kwds \<and>
      list_all (\<lambda>(k, v). k = ''new_joystick_data'' \<and> args = [] \<and> optional_dict v) kwds)"

text \<open>
  An instance as \<open>__init__\<close> makes it: it has its own handle and indexes and no attribute
  \<open>key_map\<close> or \<open>joy_map\<close> of its own.
\<close>

definition listener_dict :: "namespace \<Rightarrow> bool" where
  "listener_dict d =
     (map_of d ''key_map'' = None \<and> map_of d ''joy_map'' = None \<and>
      as_handle (map_of d ''handle'') \<noteq> None \<and>
      as_func_index (map_of d ''_key_hooks'') \<noteq> None \<and>
      as_meth_index (map_of d ''_class_listeners'') \<noteq> None \<and>
      as_inverse (map_of d ''_class_listener_binds'') \<noteq> None \<and>
      as_classes (map_of d ''_assigned_classes'') \<noteq> None)"

text \<open>The class holds both tables, and every instance is as \<open>__init__\<close> makes it.\<close>

definition well_formed :: "heap \<Rightarrow> bool" where
  "well_formed w =
     (as_key_map (map_of (class_dict w) ''key_map'') \<noteq> None \<and>
      as_joy_map (map_of (class_dict w) ''joy_map'') \<noteq> None \<and>
      list_all (\<lambda>(h, d). listener_dict d) (instance_dicts w))"

text \<open>Two listeners with the same function index, class-method index and inverse index.\<close>

definition same_indexes :: "KeyListener \<Rightarrow> KeyListener \<Rightarrow> bool" where
  "same_indexes a b =
     (key_hooks a = key_hooks b \<and> class_listeners a = class_listeners b \<and>
      class_listener_binds a = class_listener_binds b)"

section \<open>Lemmas about the joystick table\<close>

lemma convert_loop_filter:
  "convert_loop d acc = acc @ filter (\<lambda>(k, v). k \<notin> set invalid_params) d"
  by (induction d acc rule: convert_loop.induct) auto

lemma fold_dict_pop:
  "fold dict_pop ks d = filter (\<lambda>(k, v). k \<notin> set ks) d"
proof (induction ks arbitrary: d)
  case Nil
  then show ?case by simp
next
  case (Cons k ks)
  show ?case
  proof -
    have "fold dict_pop (k # ks) d = filter (\<lambda>(k', v). k' \<notin> set ks) (dict_pop k d)"
      by (simp add: Cons.IH)
    also have "\<dots> = filter (\<lambda>(k', v). k' \<notin> set (k # ks)) d"
      by (auto simp: dict_pop_def intro: filter_cong)
    finally show ?thesis .
  qed
qed

lemma remove_bind_filter:
  assumes "distinct (map fst self)"
  shows "JoyMap_remove_bind self n =
    filter (\<lambda>(k, bl). bl \<noteq> []) (map (\<lambda>(k, bl). (k, remove1 n bl)) self)"
proof -
  let ?s = "map (\<lambda>(k, bl). (k, remove1 n bl)) self"
  have s: "map (\<lambda>(key, bind_list).
             (key, if n \<in> set bind_list then remove1 n bind_list else bind_list)) self = ?s"
    by (rule map_cong) (auto simp: remove1_idem)
  have d: "distinct (map fst ?s)"
    using assms by (simp add: case_prod_unfold comp_def)
  have "\<And>d :: JoyMap. distinct (map fst d) \<Longrightarrow>
     filter (\<lambda>(k, v). k \<notin> set (map fst (filter (\<lambda>(key, bl). length bl = 0) d))) d
       = filter (\<lambda>(k, bl). bl \<noteq> []) d"
    by (rule filter_cong) (force simp: eq_key_imp_eq_value)+
  from this[OF d] show ?thesis
    unfolding JoyMap_remove_bind_def Let_def s fold_dict_pop by simp
qed

lemma wf_remove_bind: "wf_dict self \<Longrightarrow> wf_dict (JoyMap_remove_bind self n)"
  unfolding wf_dict_def
  by (simp add: remove_bind_filter distinct_map_filter case_prod_unfold comp_def)

lemma nonempty_remove_bind:
  "wf_dict self \<Longrightarrow> (k, bl) \<in> set (JoyMap_remove_bind self n) \<Longrightarrow> bl \<noteq> []"
  unfolding wf_dict_def by (auto simp: remove_bind_filter)

lemma bind_names_strip:
  "concat (map snd (filter (\<lambda>(k, bl). bl \<noteq> []) d)) = concat (map snd d)"
  by (induction d) auto

lemma set_concat_remove1_subset:
  "set (concat (map snd (map (\<lambda>(k, bl). (k, remove1 n bl)) d))) \<subseteq> set (concat (map snd d))"
proof (induction d)
  case Nil
  then show ?case by simp
next
  case (Cons a d)
  obtain k bl where a: "a = (k, bl)" by (cases a)
  have "set (remove1 n bl) \<subseteq> set bl" by (rule set_remove1_subset)
  with Cons show ?case unfolding a by (simp del: set_concat map_map) blast
qed

lemma distinct_concat_remove1:
  "distinct (concat (map snd d)) \<Longrightarrow>
   distinct (concat (map snd (map (\<lambda>(k, bl). (k, remove1 n bl)) d)))"
proof (induction d)
  case Nil
  then show ?case by simp
next
  case (Cons a d)
  obtain k bl where a: "a = (k, bl)" by (cases a)
  let ?r = "concat (map snd (map (\<lambda>(k, bl). (k, remove1 n bl)) d))"
  from Cons.prems have d1: "distinct bl" and d2: "distinct (concat (map snd d))"
    and d3: "set bl \<inter> set (concat (map snd d)) = {}"
    by (simp_all add: a del: set_concat)
  have s1: "set (remove1 n bl) \<subseteq> set bl" by (rule set_remove1_subset)
  have s2: "set ?r \<subseteq> set (concat (map snd d))" by (rule set_concat_remove1_subset)
  have "set (remove1 n bl) \<inter> set ?r = {}" using s1 s2 d3 by blast
  with Cons.IH[OF d2] d1 show ?case
    unfolding a by (simp del: set_concat map_map)
qed

lemma set_concat_remove1:
  "distinct (concat (map snd d)) \<Longrightarrow>
   set (concat (map snd (map (\<lambda>(k, bl). (k, remove1 n bl)) d))) = set (concat (map snd d)) - {n}"
proof (induction d)
  case Nil
  then show ?case by simp
next
  case (Cons a d)
  obtain k bl where a: "a = (k, bl)" by (cases a)
  from Cons.prems have d1: "distinct bl" and d2: "distinct (concat (map snd d))"
    by (auto simp: a)
  from Cons.IH[OF d2] d1 show ?case
    by (auto simp: a)
qed

lemma bind_names_remove_bind:
  assumes "wf_dict self" "one_list_per_bind self"
  shows "set (bind_names (JoyMap_remove_bind self n)) = set (bind_names self) - {n}"
    and "one_list_per_bind (JoyMap_remove_bind self n)"
  using assms
  unfolding wf_dict_def one_list_per_bind_def bind_names_def
  by (simp_all add: remove_bind_filter bind_names_strip set_concat_remove1 distinct_concat_remove1
      del: set_concat map_map)

lemma keys_setdefault_append:
  "map fst (setdefault_append k x d) = (if k \<in> set (map fst d) then map fst d else map fst d @ [k])"
  by (induction d) (auto simp: rev_image_eqI)

lemma wf_setdefault_append: "wf_dict d \<Longrightarrow> wf_dict (setdefault_append k x d)"
  unfolding wf_dict_def keys_setdefault_append by simp

lemma bind_names_Cons: "bind_names ((k, bl) # d) = bl @ bind_names d"
  by (simp add: bind_names_def)

lemma set_bind_names_setdefault_append:
  "set (bind_names (setdefault_append k x d)) = insert x (set (bind_names d))"
proof (induction d)
  case Nil
  then show ?case by (simp add: bind_names_def)
next
  case (Cons a d)
  obtain k' bl where a: "a = (k', bl)" by (cases a)
  note c = bind_names_Cons
  show ?case
  proof (cases "k' = k")
    case True
    then show ?thesis by (simp add: a c)
  next
    case False
    then show ?thesis using Cons.IH by (simp add: a c)
  qed
qed

lemma distinct_setdefault_append:
  "one_list_per_bind d \<Longrightarrow> x \<notin> set (bind_names d) \<Longrightarrow> one_list_per_bind (setdefault_append k x d)"
  unfolding one_list_per_bind_def
proof (induction d)
  case Nil
  then show ?case by (simp add: bind_names_def)
next
  case (Cons a d)
  obtain k' bl where a: "a = (k', bl)" by (cases a)
  from Cons.prems have d1: "distinct bl" and d2: "distinct (bind_names d)"
    and d3: "set bl \<inter> set (bind_names d) = {}" and x1: "x \<notin> set bl" and x2: "x \<notin> set (bind_names d)"
    by (simp_all add: a bind_names_def del: set_concat)
  show ?case
  proof (cases "k' = k")
    case True
    then show ?thesis using d1 d2 d3 x1 x2
      by (simp add: a bind_names_def del: set_concat)
  next
    case False
    have "set bl \<inter> set (bind_names (setdefault_append k x d)) = {}"
      using d3 x1 by (simp add: set_bind_names_setdefault_append)
    with False Cons.IH[OF d2 x2] d1 show ?thesis
      by (simp add: a bind_names_def del: set_concat)
  qed
qed

lemma get_bound_ValueError:
  "get_bound_joystick_event self n = Inl ValueError \<longleftrightarrow> n \<notin> set (bind_names self)"
  unfolding bind_names_def
  by (induction self n rule: get_bound_joystick_event.induct) (simp_all split: option.split)

lemma get_bound_error:
  "get_bound_joystick_event self n = Inl e \<Longrightarrow> e = ValueError"
  by (induction self n rule: get_bound_joystick_event.induct) (simp_all split: option.splits if_splits)

lemma get_bound_setdefault_append_other:
  "m \<noteq> x \<Longrightarrow> get_bound_joystick_event (setdefault_append k x d) m = get_bound_joystick_event d m"
  by (induction d) auto

lemma get_bound_setdefault_append_same:
  "x \<notin> set (bind_names d) \<Longrightarrow>
   get_bound_joystick_event (setdefault_append k x d) x = bound_result k"
proof (induction d)
  case Nil
  then show ?case by (simp add: bound_result_def)
next
  case (Cons a d)
  obtain k' bl where a: "a = (k', bl)" by (cases a)
  from Cons.prems have x1: "x \<notin> set bl" and x2: "x \<notin> set (bind_names d)"
    by (simp_all add: a bind_names_Cons)
  show ?case using x1 Cons.IH[OF x2]
    by (simp add: a bound_result_def)
qed

lemma get_bound_strip_other:
  "m \<noteq> n \<Longrightarrow>
   get_bound_joystick_event (filter (\<lambda>(k, bl). bl \<noteq> []) (map (\<lambda>(k, bl). (k, remove1 n bl)) d)) m
     = get_bound_joystick_event d m"
proof (induction d)
  case Nil
  then show ?case by simp
next
  case (Cons a d)
  obtain k' bl where a: "a = (k', bl)" by (cases a)
  have mem: "m \<in> set (remove1 n bl) \<longleftrightarrow> m \<in> set bl"
    using Cons.prems by simp
  show ?case
  proof (cases "remove1 n bl = []")
    case True
    with mem have "m \<notin> set bl" by simp
    with True Cons show ?thesis by (simp add: a)
  next
    case False
    with mem Cons show ?thesis by (simp add: a)
  qed
qed

lemma get_bound_remove_bind_other:
  "wf_dict self \<Longrightarrow> m \<noteq> n \<Longrightarrow>
   get_bound_joystick_event (JoyMap_remove_bind self n) m = get_bound_joystick_event self m"
  unfolding wf_dict_def by (simp add: remove_bind_filter get_bound_strip_other)

lemma get_bound_remove_bind_same:
  "wf_dict self \<Longrightarrow> one_list_per_bind self \<Longrightarrow>
   get_bound_joystick_event (JoyMap_remove_bind self n) n = Inl ValueError"
  by (simp add: get_bound_ValueError bind_names_remove_bind)

lemma rebind'_wf: "wf_dict self \<Longrightarrow> wf_dict (JoyMap_rebind' self n k)"
  unfolding JoyMap_rebind'_def by (intro wf_setdefault_append wf_remove_bind)

lemma rebind'_one_list:
  "wf_dict self \<Longrightarrow> one_list_per_bind self \<Longrightarrow> one_list_per_bind (JoyMap_rebind' self n k)"
  unfolding JoyMap_rebind'_def
  by (intro distinct_setdefault_append) (simp_all add: bind_names_remove_bind)

lemma rebind'_names:
  "wf_dict self \<Longrightarrow> one_list_per_bind self \<Longrightarrow>
   set (bind_names (JoyMap_rebind' self n k)) = insert n (set (bind_names self))"
  unfolding JoyMap_rebind'_def
  by (simp add: set_bind_names_setdefault_append bind_names_remove_bind)

lemma rebind'_get_same:
  "wf_dict self \<Longrightarrow> one_list_per_bind self \<Longrightarrow>
   get_bound_joystick_event (JoyMap_rebind' self n k) n = bound_result k"
  unfolding JoyMap_rebind'_def
  by (intro get_bound_setdefault_append_same) (simp add: bind_names_remove_bind)

lemma rebind'_get_other:
  "wf_dict self \<Longrightarrow> m \<noteq> n \<Longrightarrow>
   get_bound_joystick_event (JoyMap_rebind' self n k) m = get_bound_joystick_event self m"
  unfolding JoyMap_rebind'_def
  by (simp add: get_bound_setdefault_append_other get_bound_remove_bind_other)

lemma merge_flat:
  "JoyMap_merge self other = fold (\<lambda>(b, k) s. JoyMap_rebind' s b k) (flat_binds other) self"
proof -
  have inner: "\<And>k bl s. fold (\<lambda>bind s'. JoyMap_rebind' s' bind k) bl s
      = fold (\<lambda>(b, k) s. JoyMap_rebind' s b k) (map (\<lambda>b. (b, k)) bl) s"
    by (simp add: fold_map comp_def)
  show ?thesis
    unfolding JoyMap_merge_def flat_binds_def
    by (induction other arbitrary: self) (auto simp: inner)
qed

lemma fst_flat_binds: "map fst (flat_binds other) = bind_names other"
  unfolding flat_binds_def bind_names_def
  by (induction other) (auto simp: comp_def)

lemma get_bound_flat:
  "get_bound_joystick_event other m =
     (case map_of (flat_binds other) m of None \<Rightarrow> Inl ValueError | Some k \<Rightarrow> bound_result k)"
proof (induction other)
  case Nil
  then show ?case by (simp add: flat_binds_def)
next
  case (Cons a d)
  obtain k bl where a: "a = (k, bl)" by (cases a)
  have f: "flat_binds ((k, bl) # d) = map (\<lambda>b. (b, k)) bl @ flat_binds d"
    by (simp add: flat_binds_def)
  have m: "map_of (map (\<lambda>b. (b, k)) bl) m = (if m \<in> set bl then Some k else None)"
    by (induction bl) auto
  have g: "get_bound_joystick_event ((k, bl) # d) m =
     (if m \<in> set bl then bound_result k else get_bound_joystick_event d m)"
    by (simp add: bound_result_def)
  show ?case
    unfolding a g f Cons.IH by (simp add: map_add_def m split: option.split)
qed

lemma flat_binds_Cons: "flat_binds ((k, bl) # d) = map (\<lambda>b. (b, k)) bl @ flat_binds d"
  by (simp add: flat_binds_def)

lemma map_of_const_key: "map_of (map (\<lambda>b. (b, k)) bl) m = (if m \<in> set bl then Some k else None)"
  by (induction bl) auto

lemma trigger_setdefault_append_other:
  "m \<noteq> x \<Longrightarrow> map_of (flat_binds (setdefault_append k x d)) m = map_of (flat_binds d) m"
proof (induction d)
  case Nil
  then show ?case by (simp add: flat_binds_def)
next
  case (Cons a d)
  obtain k' bl where a: "a = (k', bl)" by (cases a)
  show ?case using Cons
    by (simp add: a flat_binds_Cons map_add_def map_of_const_key)
qed

lemma trigger_setdefault_append_same:
  "x \<notin> set (bind_names d) \<Longrightarrow> map_of (flat_binds (setdefault_append k x d)) x = Some k"
proof (induction d)
  case Nil
  then show ?case by (simp add: flat_binds_def)
next
  case (Cons a d)
  obtain k' bl where a: "a = (k', bl)" by (cases a)
  from Cons.prems have x1: "x \<notin> set bl" and x2: "x \<notin> set (bind_names d)"
    by (simp_all add: a bind_names_Cons)
  have n: "map_of (flat_binds d) x = None"
    using x2 by (simp add: map_of_eq_None_iff fst_flat_binds[symmetric])
  show ?case using x1 n Cons.IH[OF x2]
    by (simp add: a flat_binds_Cons map_add_def map_of_const_key)
qed

lemma trigger_strip_other:
  "m \<noteq> n \<Longrightarrow>
   map_of (flat_binds (filter (\<lambda>(k, bl). bl \<noteq> []) (map (\<lambda>(k, bl). (k, remove1 n bl)) d))) m
     = map_of (flat_binds d) m"
proof (induction d)
  case Nil
  then show ?case by simp
next
  case (Cons a d)
  obtain k' bl where a: "a = (k', bl)" by (cases a)
  have mem: "m \<in> set (remove1 n bl) \<longleftrightarrow> m \<in> set bl"
    using Cons.prems by simp
  show ?case
  proof (cases "remove1 n bl = []")
    case True
    with mem have "m \<notin> set bl" by simp
    with True Cons show ?thesis
      by (simp add: a flat_binds_Cons map_add_def map_of_const_key)
  next
    case False
    with mem Cons show ?thesis
      by (simp add: a flat_binds_Cons map_add_def map_of_const_key)
  qed
qed

lemma trigger_rebind':
  assumes "wf_dict self" "one_list_per_bind self"
  shows "map_of (flat_binds (JoyMap_rebind' self n k)) = (map_of (flat_binds self))(n \<mapsto> k)"
proof
  fix m
  have nn: "n \<notin> set (bind_names (JoyMap_remove_bind self n))"
    using assms by (simp add: bind_names_remove_bind)
  show "map_of (flat_binds (JoyMap_rebind' self n k)) m = ((map_of (flat_binds self))(n \<mapsto> k)) m"
  proof (cases "m = n")
    case True
    then show ?thesis
      using nn by (simp add: JoyMap_rebind'_def trigger_setdefault_append_same)
  next
    case False
    then show ?thesis
      using assms(1)
      by (simp add: JoyMap_rebind'_def trigger_setdefault_append_other remove_bind_filter
          trigger_strip_other wf_dict_def)
  qed
qed

lemma fold_rebind':
  "wf_dict self \<Longrightarrow> one_list_per_bind self \<Longrightarrow>
   wf_dict (fold (\<lambda>(b, k) s. JoyMap_rebind' s b k) ps self) \<and>
   one_list_per_bind (fold (\<lambda>(b, k) s. JoyMap_rebind' s b k) ps self) \<and>
   map_of (flat_binds (fold (\<lambda>(b, k) s. JoyMap_rebind' s b k) ps self)) =
      fold (\<lambda>(b, k) f. f(b \<mapsto> k)) ps (map_of (flat_binds self))"
proof (induction ps arbitrary: self)
  case Nil
  then show ?case by simp
next
  case (Cons p ps)
  obtain b k where p: "p = (b, k)" by (cases p)
  let ?s = "JoyMap_rebind' self b k"
  from Cons.prems have w: "wf_dict ?s" and o: "one_list_per_bind ?s"
    by (simp_all add: rebind'_wf rebind'_one_list)
  show ?case
    using Cons.IH[OF w o] Cons.prems by (simp add: p trigger_rebind')
qed

lemma fold_upd_distinct:
  "distinct (map fst ps) \<Longrightarrow> fold (\<lambda>(b, k) f. f(b \<mapsto> k)) ps g = g ++ map_of ps"
proof (induction ps arbitrary: g)
  case Nil
  then show ?case by simp
next
  case (Cons p ps)
  obtain b k where p: "p = (b, k)" by (cases p)
  from Cons.prems have d: "distinct (map fst ps)" and nb: "b \<notin> fst ` set ps"
    by (simp_all add: p)
  have none: "map_of ps b = None" using nb by (simp add: map_of_eq_None_iff)
  have "fold (\<lambda>(b, k) f. f(b \<mapsto> k)) (p # ps) g = fold (\<lambda>(b, k) f. f(b \<mapsto> k)) ps (g(b \<mapsto> k))"
    unfolding p by (simp only: fold_Cons comp_apply case_prod_conv)
  also have "\<dots> = (g(b \<mapsto> k)) ++ map_of ps"
    by (rule Cons.IH[OF d])
  also have "\<dots> = g ++ (map_of ps)(b \<mapsto> k)"
    using none by (auto simp: fun_eq_iff map_add_def split: option.split)
  also have "\<dots> = g ++ map_of (p # ps)"
    unfolding p by (simp only: map_of.simps fst_conv snd_conv)
  finally show ?case .
qed

lemma merge_trigger:
  assumes "wf_dict self" "one_list_per_bind self" "one_list_per_bind other"
  shows "map_of (flat_binds (JoyMap_merge self other)) = map_of (flat_binds self) ++ map_of (flat_binds other)"
proof -
  have d: "distinct (map fst (flat_binds other))"
    using assms(3) by (simp add: fst_flat_binds one_list_per_bind_def)
  show ?thesis
    using fold_rebind'[OF assms(1,2), of "flat_binds other"] fold_upd_distinct[OF d]
    by (simp add: merge_flat)
qed

lemma merge_get_bound:
  assumes "wf_dict self" "one_list_per_bind self" "one_list_per_bind other"
  shows "get_bound_joystick_event (JoyMap_merge self other) m =
     (if m \<in> set (bind_names other) then get_bound_joystick_event other m
      else get_bound_joystick_event self m)"
proof -
  have dom: "m \<in> set (bind_names other) \<longleftrightarrow> map_of (flat_binds other) m \<noteq> None"
    by (simp add: map_of_eq_None_iff fst_flat_binds[symmetric])
  show ?thesis
    using dom by (auto simp: get_bound_flat merge_trigger[OF assms] map_add_def split: option.split)
qed

lemma merge_invariant:
  assumes "wf_dict self" "one_list_per_bind self" "one_list_per_bind other"
  shows "wf_dict (JoyMap_merge self other)" "one_list_per_bind (JoyMap_merge self other)"
  using fold_rebind'[OF assms(1,2), of "flat_binds other"] by (simp_all add: merge_flat)

lemma map_of_dict_set: "map_of (dict_set k v d) = (map_of d)(k \<mapsto> v)"
  by (induction d) (auto simp: fun_eq_iff)

lemma pack_binds_flat:
  "JoyMap_pack_binds self = fold (\<lambda>(b, k) p. dict_set b k p) (flat_binds self) []"
proof -
  have inner: "\<And>k bl p. fold (\<lambda>bind p. dict_set bind k p) bl p
      = fold (\<lambda>(b, k) p. dict_set b k p) (map (\<lambda>b. (b, k)) bl) p"
    by (simp add: fold_map comp_def)
  have "\<And>acc. fold (\<lambda>(joy_data, bind_list) packed. fold (\<lambda>bind p. dict_set bind joy_data p) bind_list packed) self acc
     = fold (\<lambda>(b, k) p. dict_set b k p) (flat_binds self) acc"
    by (induction self) (auto simp: inner flat_binds_def)
  then show ?thesis by (simp add: JoyMap_pack_binds_def)
qed

lemma map_of_fold_dict_set:
  "map_of (fold (\<lambda>(b, k) p. dict_set b k p) ps acc) = fold (\<lambda>(b, k) f. f(b \<mapsto> k)) ps (map_of acc)"
  by (induction ps arbitrary: acc) (auto simp: map_of_dict_set)

lemma pack_binds_trigger:
  "one_list_per_bind self \<Longrightarrow> map_of (JoyMap_pack_binds self) = map_of (flat_binds self)"
proof -
  assume "one_list_per_bind self"
  then have d: "distinct (map fst (flat_binds self))"
    by (simp add: fst_flat_binds one_list_per_bind_def)
  show ?thesis
    by (simp add: pack_binds_flat map_of_fold_dict_set fold_upd_distinct[OF d])
qed

section \<open>Lemmas about the key table and the listener\<close>

lemma validate_input_int:
  assumes "getattr_event ev ''key'' = PInt K" and "getattr_event ev ''mod'' = PInt M"
    and "optional_int (mod' kb)"
  shows "validate_input kb ev = Inr (mod_matches (mod' kb) M)"
  using assms
  by (auto simp: validate_input_def optional_int_def mod_matches_def is_int_def Let_def
      split: pyobj.splits pyval.splits)

lemma validated_binds_int:
  assumes "getattr_event ev ''key'' = PInt K" and "getattr_event ev ''mod'' = PInt M"
  shows "\<forall>kb \<in> set binds. optional_int (mod' kb) \<Longrightarrow>
    validated_binds ev binds = Inr (map bind_name (filter (\<lambda>kb. mod_matches (mod' kb) M) binds))"
  by (induction binds) (simp_all add: validate_input_int[OF assms])

lemma get_bound_key_ValueError:
  "get_bound_key km n = Inl ValueError \<longleftrightarrow> n \<notin> set (key_names km)"
proof (induction km n rule: get_bound_key.induct)
  case (1 name)
  then show ?case by (simp add: key_names_def)
next
  case (2 key_code binds rest name)
  show ?case
  proof (cases "find (\<lambda>kb. bind_name kb = name) binds")
    case None
    then have "name \<notin> bind_name ` set binds"
      by (auto simp: find_None_iff)
    with None 2 show ?thesis by (simp add: key_names_def)
  next
    case (Some kb)
    then have "kb \<in> set binds \<and> bind_name kb = name"
      by (auto simp: find_Some_iff)
    then have "name \<in> bind_name ` set binds" by blast
    with Some show ?thesis by (simp add: key_names_def)
  qed
qed

lemma get_bound_key_error: "get_bound_key km n = Inl e \<Longrightarrow> e = ValueError"
  by (induction km n rule: get_bound_key.induct) (auto split: option.splits)

lemma key_names_remove_bind: "n \<notin> set (key_names (KeyMap_remove_bind km n))"
  by (auto simp: key_names_def KeyMap_remove_bind_def)

lemma get_bound_key_setdefault_append:
  "bind_name kb \<notin> set (key_names km) \<Longrightarrow>
   get_bound_key (setdefault_append k kb km) (bind_name kb) = Inr (k, mod' kb)"
proof (induction km)
  case Nil
  then show ?case by simp
next
  case (Cons a km)
  obtain k' binds where a: "a = (k', binds)" by (cases a)
  from Cons.prems have n1: "bind_name kb \<notin> bind_name ` set binds"
    and n2: "bind_name kb \<notin> set (key_names km)"
    by (auto simp: a key_names_def)
  have n3: "\<forall>x \<in> set binds. bind_name x \<noteq> bind_name kb"
    using n1 by (metis imageI)
  have f: "find (\<lambda>x. bind_name x = bind_name kb) binds = None"
    using n3 by (simp add: find_None_iff)
  have g: "find (\<lambda>x. bind_name x = bind_name kb) (binds @ [kb]) = Some kb"
    using n3 by (induction binds) auto
  show ?case using Cons.IH[OF n2] f g by (simp add: a)
qed

lemma get_bound_key_rebind:
  "get_bound_key (KeyMap_rebind km \<lparr>bind_name = b, mod' = m\<rparr> k) b = Inr (k, m)"
  using get_bound_key_setdefault_append[of "\<lparr>bind_name = b, mod' = m\<rparr>" "KeyMap_remove_bind km b" k]
  by (simp add: KeyMap_rebind_def key_names_remove_bind)

lemma dict_set_distinct_id:
  "distinct (map fst (acc @ ps)) \<Longrightarrow> fold (\<lambda>(key, val) d. dict_set key val d) ps acc = acc @ ps"
proof (induction ps arbitrary: acc)
  case Nil
  then show ?case by simp
next
  case (Cons p ps)
  obtain k v where p: "p = (k, v)" by (cases p)
  from Cons.prems have nk: "k \<notin> fst ` set acc" by (auto simp: p)
  have s: "dict_set k v acc = acc @ [(k, v)]"
    using nk by (induction acc) auto
  from Cons.prems have "distinct (map fst ((acc @ [(k, v)]) @ ps))" by (simp add: p)
  from Cons.IH[OF this] show ?case by (simp add: p s)
qed

lemma convert_pairs_distinct: "wf_dict p \<Longrightarrow> convert_pairs p = p"
  using dict_set_distinct_id[of "[]" p] by (simp add: convert_pairs_def wf_dict_def)

lemma wf_drop_noise: "wf_dict d \<Longrightarrow> wf_dict (drop_noise d)"
  by (simp add: wf_dict_def drop_noise_def distinct_map_filter)

lemma rebind_routes:
  "rebind fr b args kwds =
     (if joystick_route args kwds then rebind_joystick fr b (new_bind_of args kwds)
      else rebind_key fr b (new_bind_of args kwds)
             (if length args > 1 then args ! 1 else dict_get kwds ''new_mod'' (Val PNone)))"
  by (simp add: rebind_def joystick_route_def new_bind_of_def Let_def)

lemma dict_get_cases:
  "dict_get d k dflt = dflt \<or> (k, dict_get d k dflt) \<in> set d"
  by (auto simp: dict_get_def split: option.split dest: map_of_SomeD)

lemma key_call_route:
  assumes "key_call args kwds"
  shows "\<not> joystick_route args kwds" and "optional_int (new_bind_of args kwds)"
proof -
  have kw: "k \<in> {''new_key'', ''new_mod''} \<and> optional_int v" if "(k, v) \<in> set kwds" for k v
  proof -
    from assms that have d: "k \<in> set (drop (length args) [''new_key'', ''new_mod''])" and o: "optional_int v"
      by (auto simp: key_call_def list_all_iff)
    from d have "k \<in> set [''new_key'', ''new_mod'']" by (rule in_set_dropD)
    with o show ?thesis by simp
  qed
  from assms have ar: "\<And>x. x \<in> set args \<Longrightarrow> optional_int x"
    by (auto simp: key_call_def list_all_iff)
  have j: "dict_get kwds ''new_joystick_data'' (Val PNone) = Val PNone"
    using dict_get_cases[of kwds "''new_joystick_data''" "Val PNone"] kw by auto
  have n: "optional_int (dict_get kwds ''new_key'' (Val PNone))"
    using dict_get_cases[of kwds "''new_key''" "Val PNone"] kw by (auto simp: optional_int_def)
  show o: "optional_int (new_bind_of args kwds)"
    using n ar by (cases args) (auto simp: new_bind_of_def)
  then have "\<not> is_dict (new_bind_of args kwds)"
    by (auto simp: optional_int_def is_dict_def split: pyobj.splits)
  with j show "\<not> joystick_route args kwds"
    by (simp add: joystick_route_def truthy_def)
qed

lemma joystick_call_new_bind:
  assumes "joystick_call args kwds"
  shows "new_bind_of args kwds = Val PNone \<or> is_dict (new_bind_of args kwds)"
proof -
  from assms have kw: "\<And>k v. (k, v) \<in> set kwds \<Longrightarrow> k = ''new_joystick_data''"
    by (auto simp: joystick_call_def list_all_iff)
  from assms have ar: "\<And>x. x \<in> set args \<Longrightarrow> optional_dict x"
    by (auto simp: joystick_call_def list_all_iff)
  have n: "dict_get kwds ''new_key'' (Val PNone) = Val PNone"
    using dict_get_cases[of kwds "''new_key''" "Val PNone"] kw by auto
  show ?thesis
  proof (cases args)
    case Nil
    then show ?thesis by (simp add: new_bind_of_def n)
  next
    case (Cons a as)
    with ar have "optional_dict a" by simp
    with Cons show ?thesis
      by (auto simp: new_bind_of_def optional_dict_def is_dict_def split: pyobj.splits)
  qed
qed

lemma rebind_joystick_unregistered:
  "get_bound_joystick_event (joy_map fr) b = Inl ValueError \<Longrightarrow>
   rebind_joystick fr b nb = Inr (NoTrigger, fr\<lparr>logged := logged fr @ [WARNING]\<rparr>)"
  by (simp add: rebind_joystick_def log_record_def)

lemma rebind_key_unregistered:
  "get_bound_key (key_map fr) b = Inl ValueError \<Longrightarrow>
   rebind_key fr b nk nm = Inr (NoTrigger, fr\<lparr>logged := logged fr @ [WARNING]\<rparr>)"
  by (simp add: rebind_key_def log_record_def)

lemma rebind_joystick_registered:
  assumes "get_bound_joystick_event (joy_map fr) b = Inr old"
    and "nb = Val PNone \<or> is_dict nb"
  shows "\<exists>k. rebind_joystick fr b nb =
           Inr (JoyTrigger old, fr\<lparr>joy_map := JoyMap_rebind' (joy_map fr) b k\<rparr>) \<and>
         (nb = Val PNone \<longrightarrow> k = None) \<and> (\<forall>d. nb = Dict d \<longrightarrow> k = Some (drop_noise d))"
  using assms
  by (auto simp: rebind_joystick_def JoyMap_rebind_def convert_event_def is_dict_def
      convert_loop_filter drop_noise_def split: pyobj.splits)

lemma rebind_key_registered:
  assumes "get_bound_key (key_map fr) b = Inr (k, m)"
  shows "rebind_key fr b (Val nk) nm = Inr (KeyTrigger k m,
     fr\<lparr>key_map := KeyMap_rebind (key_map fr) \<lparr>bind_name = b, mod' = nm\<rparr> nk\<rparr>)"
  using assms by (simp add: rebind_key_def hashable_def)

section \<open>Lemmas about the class and its instances\<close>

lemma as_Some:
  "as_key_map a \<noteq> None \<longleftrightarrow> (\<exists>x. a = Some (KeyMapAttr x))"
  "as_joy_map a \<noteq> None \<longleftrightarrow> (\<exists>x. a = Some (JoyMapAttr x))"
  "as_handle a \<noteq> None \<longleftrightarrow> (\<exists>x. a = Some (HandleAttr x))"
  "as_func_index a \<noteq> None \<longleftrightarrow> (\<exists>x. a = Some (FuncIndexAttr x))"
  "as_meth_index a \<noteq> None \<longleftrightarrow> (\<exists>x. a = Some (MethIndexAttr x))"
  "as_inverse a \<noteq> None \<longleftrightarrow> (\<exists>x. a = Some (InverseAttr x))"
  "as_classes a \<noteq> None \<longleftrightarrow> (\<exists>x. a = Some (ClassesAttr x))"
  by (auto simp: as_key_map_def as_joy_map_def as_handle_def as_func_index_def as_meth_index_def
      as_inverse_def as_classes_def split: option.splits attr.splits)

lemma as_simps:
  "as_key_map (Some (KeyMapAttr k)) = Some k"
  "as_joy_map (Some (JoyMapAttr j)) = Some j"
  "as_handle (Some (HandleAttr s)) = Some s"
  "as_func_index (Some (FuncIndexAttr f)) = Some f"
  "as_meth_index (Some (MethIndexAttr m)) = Some m"
  "as_inverse (Some (InverseAttr i)) = Some i"
  "as_classes (Some (ClassesAttr c)) = Some c"
  by (simp_all add: as_key_map_def as_joy_map_def as_handle_def as_func_index_def as_meth_index_def
      as_inverse_def as_classes_def)

text \<open>What the namespace of a listener and the namespace of the class hold, spelled out.\<close>

lemma listener_dictD:
  assumes "listener_dict d"
  obtains hn kh cl cb ac where
    "map_of d ''key_map'' = None" "map_of d ''joy_map'' = None"
    "map_of d ''handle'' = Some (HandleAttr hn)"
    "map_of d ''_key_hooks'' = Some (FuncIndexAttr kh)"
    "map_of d ''_class_listeners'' = Some (MethIndexAttr cl)"
    "map_of d ''_class_listener_binds'' = Some (InverseAttr cb)"
    "map_of d ''_assigned_classes'' = Some (ClassesAttr ac)"
  using assms unfolding listener_dict_def as_Some by blast

lemma well_formedD:
  assumes "well_formed w"
  obtains km jm where
    "map_of (class_dict w) ''key_map'' = Some (KeyMapAttr km)"
    "map_of (class_dict w) ''joy_map'' = Some (JoyMapAttr jm)"
  using assms unfolding well_formed_def as_Some by blast

lemma well_formed_instance:
  "well_formed w \<Longrightarrow> map_of (instance_dicts w) h = Some d \<Longrightarrow> listener_dict d"
  by (auto simp: well_formed_def list_all_iff dest!: map_of_SomeD)

lemma enter_well_formed:
  assumes w: "well_formed w" and d: "map_of (instance_dicts w) h = Some d"
    and km: "map_of (class_dict w) ''key_map'' = Some (KeyMapAttr km)"
    and jm: "map_of (class_dict w) ''joy_map'' = Some (JoyMapAttr jm)"
    and a: "map_of d ''handle'' = Some (HandleAttr hn)"
    "map_of d ''_key_hooks'' = Some (FuncIndexAttr kh)"
    "map_of d ''_class_listeners'' = Some (MethIndexAttr cl)"
    "map_of d ''_class_listener_binds'' = Some (InverseAttr cb)"
    "map_of d ''_assigned_classes'' = Some (ClassesAttr ac)"
  shows "enter w h = Some \<lparr>key_map = km, joy_map = jm, logged = records w,
            listener = \<lparr>handle = hn, key_hooks = kh, class_listeners = cl,
                        class_listener_binds = cb, assigned_classes = ac\<rparr>\<rparr>"
proof -
  from well_formed_instance[OF w d] have n: "map_of d ''key_map'' = None" "map_of d ''joy_map'' = None"
    by (simp_all add: listener_dict_def)
  show ?thesis
    by (simp add: enter_def d getattr_self_def n km jm a as_simps)
qed

lemma enter_listener_dict:
  assumes d: "map_of (instance_dicts w) h = Some d" and n: "map_of d ''key_map'' = None" "map_of d ''joy_map'' = None"
    and km: "map_of (class_dict w) ''key_map'' = Some (KeyMapAttr km)"
    and jm: "map_of (class_dict w) ''joy_map'' = Some (JoyMapAttr jm)"
    and a: "map_of d ''handle'' = Some (HandleAttr hn)"
    "map_of d ''_key_hooks'' = Some (FuncIndexAttr kh)"
    "map_of d ''_class_listeners'' = Some (MethIndexAttr cl)"
    "map_of d ''_class_listener_binds'' = Some (InverseAttr cb)"
    "map_of d ''_assigned_classes'' = Some (ClassesAttr ac)"
  shows "enter w h = Some \<lparr>key_map = km, joy_map = jm, logged = records w,
            listener = \<lparr>handle = hn, key_hooks = kh, class_listeners = cl,
                        class_listener_binds = cb, assigned_classes = ac\<rparr>\<rparr>"
  by (simp add: enter_def d getattr_self_def n km jm a as_simps)

lemma enter_SomeD: "enter w h = Some fr \<Longrightarrow> \<exists>d. map_of (instance_dicts w) h = Some d"
  by (auto simp: enter_def split: option.splits)

lemma leave_closed:
  assumes d: "map_of (instance_dicts w) h = Some d" and l: "listener_dict d"
    and km: "map_of (class_dict w) ''key_map'' = Some (KeyMapAttr km)"
    and jm: "map_of (class_dict w) ''joy_map'' = Some (JoyMapAttr jm)"
  shows "map_of (class_dict (leave w h fr1)) ''key_map'' = Some (KeyMapAttr (key_map fr1))"
    and "map_of (class_dict (leave w h fr1)) ''joy_map'' = Some (JoyMapAttr (joy_map fr1))"
    and "records (leave w h fr1) = logged fr1"
    and "\<And>h'. h' \<noteq> h \<Longrightarrow> map_of (instance_dicts (leave w h fr1)) h' = map_of (instance_dicts w) h'"
    and "\<exists>d'. map_of (instance_dicts (leave w h fr1)) h = Some d' \<and>
           map_of d' = (map_of d)(''_key_hooks'' \<mapsto> FuncIndexAttr (key_hooks (listener fr1)),
                               ''_class_listeners'' \<mapsto> MethIndexAttr (class_listeners (listener fr1)),
                               ''_class_listener_binds'' \<mapsto> InverseAttr (class_listener_binds (listener fr1)),
                               ''_assigned_classes'' \<mapsto> ClassesAttr (assigned_classes (listener fr1)))"
proof -
  from l obtain hn kh cl cb ac where f:
    "map_of d ''key_map'' = None" "map_of d ''joy_map'' = None"
    "map_of d ''handle'' = Some (HandleAttr hn)"
    "map_of d ''_key_hooks'' = Some (FuncIndexAttr kh)"
    "map_of d ''_class_listeners'' = Some (MethIndexAttr cl)"
    "map_of d ''_class_listener_binds'' = Some (InverseAttr cb)"
    "map_of d ''_assigned_classes'' = Some (ClassesAttr ac)"
    by (rule listener_dictD)
  note s = leave_def mutate_def d f km jm map_of_dict_set
  show "map_of (class_dict (leave w h fr1)) ''key_map'' = Some (KeyMapAttr (key_map fr1))"
    by (simp add: s)
  show "map_of (class_dict (leave w h fr1)) ''joy_map'' = Some (JoyMapAttr (joy_map fr1))"
    by (simp add: s)
  show "records (leave w h fr1) = logged fr1"
    by (simp add: s)
  show "\<And>h'. h' \<noteq> h \<Longrightarrow> map_of (instance_dicts (leave w h fr1)) h' = map_of (instance_dicts w) h'"
    by (simp add: s)
  show "\<exists>d'. map_of (instance_dicts (leave w h fr1)) h = Some d' \<and>
           map_of d' = (map_of d)(''_key_hooks'' \<mapsto> FuncIndexAttr (key_hooks (listener fr1)),
                               ''_class_listeners'' \<mapsto> MethIndexAttr (class_listeners (listener fr1)),
                               ''_class_listener_binds'' \<mapsto> InverseAttr (class_listener_binds (listener fr1)),
                               ''_assigned_classes'' \<mapsto> ClassesAttr (assigned_classes (listener fr1)))"
    by (simp add: s)
qed

lemma list_all_dict_set: "P (k, v) \<Longrightarrow> list_all P d \<Longrightarrow> list_all P (dict_set k v d)"
  by (induction d) auto

lemma leave_well_formed:
  assumes w: "well_formed w" and d: "map_of (instance_dicts w) h = Some d"
  shows "well_formed (leave w h fr1)"
proof -
  from well_formed_instance[OF w d] have l: "listener_dict d" .
  from l obtain hn kh cl cb ac where f:
    "map_of d ''key_map'' = None" "map_of d ''joy_map'' = None"
    "map_of d ''handle'' = Some (HandleAttr hn)"
    "map_of d ''_key_hooks'' = Some (FuncIndexAttr kh)"
    "map_of d ''_class_listeners'' = Some (MethIndexAttr cl)"
    "map_of d ''_class_listener_binds'' = Some (InverseAttr cb)"
    "map_of d ''_assigned_classes'' = Some (ClassesAttr ac)"
    by (rule listener_dictD)
  from w obtain km jm where c:
    "map_of (class_dict w) ''key_map'' = Some (KeyMapAttr km)"
    "map_of (class_dict w) ''joy_map'' = Some (JoyMapAttr jm)"
    by (rule well_formedD)
  from w have a: "list_all (\<lambda>(h, d). listener_dict d) (instance_dicts w)"
    by (simp add: well_formed_def)
  show ?thesis
    unfolding well_formed_def
    by (simp add: leave_def mutate_def d f c map_of_dict_set as_simps a list_all_dict_set
        listener_dict_def)
qed

lemma call_well_formed: "well_formed w \<Longrightarrow> well_formed (call w h method)"
  by (auto simp: call_def leave_well_formed split: option.splits sum.splits dest: enter_SomeD)

lemma getKeyListener_well_formed: "well_formed w \<Longrightarrow> well_formed (getKeyListener w h)"
  by (auto simp: getKeyListener_def well_formed_def listener_dict_def init_dict_def as_simps
      split: option.splits)

lemma reachable_well_formed: "reachable w \<Longrightarrow> well_formed w"
proof (induction rule: reachable.induct)
  case class_body
  show ?case by (simp add: well_formed_def KeyListener_class_def as_simps)
next
  case (get_listener w h)
  then show ?case by (simp add: getKeyListener_well_formed)
next
  case (bound w h key_bind_name args kwds responder)
  then show ?case by (simp add: do_bind_def call_well_formed)
next
  case (captured w h c m td)
  then show ?case by (simp add: do_capture_method_def call_well_formed)
next
  case (rebound w h key_bind_name args kwds)
  then show ?case by (simp add: do_rebind_def call_well_formed)
next
  case (cleared w h name eliminate_bind)
  then show ?case by (simp add: do_clear_bind_def call_well_formed)
qed

lemma call_other_listener:
  assumes w: "well_formed w" and ne: "h' \<noteq> h"
    and e: "enter w h = Some fr" and e': "enter w h' = Some fr'"
    and m: "method fr = Inr fr1"
  shows "enter (call w h method) h' =
           Some \<lparr>key_map = key_map fr1, joy_map = joy_map fr1, logged = logged fr1,
                 listener = listener fr'\<rparr>"
proof -
  from e obtain d where d: "map_of (instance_dicts w) h = Some d"
    by (auto dest: enter_SomeD)
  from e' obtain d' where d': "map_of (instance_dicts w) h' = Some d'"
    by (auto dest: enter_SomeD)
  from well_formed_instance[OF w d] have l: "listener_dict d" .
  from well_formed_instance[OF w d'] obtain hn kh cl cb ac where f:
    "map_of d' ''key_map'' = None" "map_of d' ''joy_map'' = None"
    "map_of d' ''handle'' = Some (HandleAttr hn)"
    "map_of d' ''_key_hooks'' = Some (FuncIndexAttr kh)"
    "map_of d' ''_class_listeners'' = Some (MethIndexAttr cl)"
    "map_of d' ''_class_listener_binds'' = Some (InverseAttr cb)"
    "map_of d' ''_assigned_classes'' = Some (ClassesAttr ac)"
    by (rule listener_dictD)
  from w obtain km jm where c:
    "map_of (class_dict w) ''key_map'' = Some (KeyMapAttr km)"
    "map_of (class_dict w) ''joy_map'' = Some (JoyMapAttr jm)"
    by (rule well_formedD)
  have "Some fr' = Some \<lparr>key_map = km, joy_map = jm, logged = records w,
            listener = \<lparr>handle = hn, key_hooks = kh, class_listeners = cl,
                        class_listener_binds = cb, assigned_classes = ac\<rparr>\<rparr>"
    using e' enter_listener_dict[OF d' f(1,2) c f(3-7)] by simp
  then have before: "listener fr' = \<lparr>handle = hn, key_hooks = kh, class_listeners = cl,
                        class_listener_binds = cb, assigned_classes = ac\<rparr>"
    by simp
  have cl: "call w h method = leave w h fr1"
    by (simp add: call_def e m)
  note p = leave_closed[OF d l c, where ?fr1.0 = fr1]
  have d'': "map_of (instance_dicts (leave w h fr1)) h' = Some d'"
    using p(4)[OF ne] d' by simp
  show ?thesis
    unfolding cl before
    using enter_listener_dict[OF d'' f(1,2) p(1,2) f(3-7)] by (simp add: p(3))
qed

lemma call_same_listener:
  assumes w: "well_formed w" and e: "enter w h = Some fr" and m: "method fr = Inr fr1"
  shows "enter (call w h method) h =
           Some \<lparr>key_map = key_map fr1, joy_map = joy_map fr1, logged = logged fr1,
                 listener = (listener fr1)\<lparr>handle := handle (listener fr)\<rparr>\<rparr>"
proof -
  from e obtain d where d: "map_of (instance_dicts w) h = Some d"
    by (auto dest: enter_SomeD)
  from well_formed_instance[OF w d] have l: "listener_dict d" .
  from l obtain hn kh cl cb ac where f:
    "map_of d ''key_map'' = None" "map_of d ''joy_map'' = None"
    "map_of d ''handle'' = Some (HandleAttr hn)"
    "map_of d ''_key_hooks'' = Some (FuncIndexAttr kh)"
    "map_of d ''_class_listeners'' = Some (MethIndexAttr cl)"
    "map_of d ''_class_listener_binds'' = Some (InverseAttr cb)"
    "map_of d ''_assigned_classes'' = Some (ClassesAttr ac)"
    by (rule listener_dictD)
  from w obtain km jm where c:
    "map_of (class_dict w) ''key_map'' = Some (KeyMapAttr km)"
    "map_of (class_dict w) ''joy_map'' = Some (JoyMapAttr jm)"
    by (rule well_formedD)
  have "Some fr = Some \<lparr>key_map = km, joy_map = jm, logged = records w,
            listener = \<lparr>handle = hn, key_hooks = kh, class_listeners = cl,
                        class_listener_binds = cb, assigned_classes = ac\<rparr>\<rparr>"
    using e enter_listener_dict[OF d f(1,2) c f(3-7)] by simp
  then have before: "handle (listener fr) = hn"
    by simp
  have cl: "call w h method = leave w h fr1"
    by (simp add: call_def e m)
  note p = leave_closed[OF d l c, where ?fr1.0 = fr1]
  from p(5) obtain d1 where d1: "map_of (instance_dicts (leave w h fr1)) h = Some d1"
    and m1: "map_of d1 = (map_of d)(''_key_hooks'' \<mapsto> FuncIndexAttr (key_hooks (listener fr1)),
                               ''_class_listeners'' \<mapsto> MethIndexAttr (class_listeners (listener fr1)),
                               ''_class_listener_binds'' \<mapsto> InverseAttr (class_listener_binds (listener fr1)),
                               ''_assigned_classes'' \<mapsto> ClassesAttr (assigned_classes (listener fr1)))"
    by blast
  have g: "map_of d1 ''key_map'' = None" "map_of d1 ''joy_map'' = None"
    "map_of d1 ''handle'' = Some (HandleAttr hn)"
    "map_of d1 ''_key_hooks'' = Some (FuncIndexAttr (key_hooks (listener fr1)))"
    "map_of d1 ''_class_listeners'' = Some (MethIndexAttr (class_listeners (listener fr1)))"
    "map_of d1 ''_class_listener_binds'' = Some (InverseAttr (class_listener_binds (listener fr1)))"
    "map_of d1 ''_assigned_classes'' = Some (ClassesAttr (assigned_classes (listener fr1)))"
    by (simp_all add: m1 f)
  show ?thesis
    unfolding cl
    using enter_listener_dict[OF d1 g(1,2) p(1,2) g(3-7)] by (simp add: p(3) before)
qed

lemma get_bound_Inr_names:
  "get_bound_joystick_event self n = Inr x \<Longrightarrow> n \<in> set (bind_names self)"
  using get_bound_ValueError[of self n] by auto

lemma get_bound_key_Inr_names:
  "get_bound_key km n = Inr x \<Longrightarrow> n \<in> set (key_names km)"
  using get_bound_key_ValueError[of km n] by auto

lemma generate_bind_registers:
  "JoyMap_generate_bind self n d = Inr r \<Longrightarrow> n \<in> set (bind_names r)"
  by (auto simp: JoyMap_generate_bind_def set_bind_names_setdefault_append
      split: sum.splits if_splits dest: get_bound_Inr_names)

lemma set_concat_setdefault_append:
  "set (concat (map snd (setdefault_append k x d))) = insert x (set (concat (map snd d)))"
proof (induction d)
  case Nil
  then show ?case by simp
next
  case (Cons a d)
  obtain k' xs where a: "a = (k', xs)" by (cases a)
  show ?case
  proof (cases "k' = k")
    case True
    then show ?thesis by (simp add: a del: set_concat)
  next
    case False
    then show ?thesis using Cons.IH by (simp add: a del: set_concat)
  qed
qed

lemma key_names_setdefault_append:
  "set (key_names (setdefault_append k kb km)) = insert (bind_name kb) (set (key_names km))"
  unfolding key_names_def set_map set_concat_setdefault_append by simp

lemma key_generate_bind_registers:
  "KeyMap_generate_bind km n k m = Inr r \<Longrightarrow> n \<in> set (key_names r)"
  by (auto simp: KeyMap_generate_bind_def key_names_setdefault_append
      split: sum.splits dest: get_bound_key_Inr_names)

lemma bind_registers:
  assumes "bind fr n args kwds = Inr (ty, fr1)"
  shows "listener fr1 = listener fr \<and>
         (n \<in> set (key_names (key_map fr1)) \<or> n \<in> set (bind_names (joy_map fr1)))"
  using assms
  by (auto simp: bind_def Let_def split: prod.splits if_splits sum.splits
      dest: generate_bind_registers key_generate_bind_registers)

lemma hooks_for_index_put:
  "hooks_for (index_put index n c ty l) n c ty = l"
  by (simp add: hooks_for_def index_put_def dict_get_def map_of_dict_set Let_def)

lemma bind_responder_registers:
  assumes "bind_responder n args kwds r fr = Inr fr1"
  shows "(n \<in> set (key_names (key_map fr1)) \<or> n \<in> set (bind_names (joy_map fr1))) \<and>
         (\<exists>ty. r \<in> set (hooks_for (key_hooks (listener fr1)) n (\<not> runs_sequential r) ty))"
proof -
  from assms obtain ty fr0 this where b: "bind fr n args kwds = Inr (ty, fr0)"
    and d: "decorator (listener fr0) n ty r = Inr this" and f: "fr1 = fr0\<lparr>listener := this\<rparr>"
    by (auto simp: bind_responder_def split: sum.splits prod.splits)
  from d obtain t where t: "hashable ty = Inr t"
    and th: "key_hooks this = index_put (key_hooks (listener fr0)) n (\<not> runs_sequential r) t
        (if r \<notin> set (hooks_for (key_hooks (listener fr0)) n (\<not> runs_sequential r) t)
         then hooks_for (key_hooks (listener fr0)) n (\<not> runs_sequential r) t @ [r]
         else hooks_for (key_hooks (listener fr0)) n (\<not> runs_sequential r) t)"
    by (auto simp: decorator_def Let_def split: sum.splits)
  have "r \<in> set (hooks_for (key_hooks this) n (\<not> runs_sequential r) t)"
    unfolding th hooks_for_index_put by simp
  with bind_registers[OF b] f show ?thesis by auto
qed

lemma capture_method_registers:
  assumes "capture_method fr c m (n, k, md, ty, jd) = Inr fr1"
  shows "(n \<in> set (key_names (key_map fr1)) \<or> n \<in> set (bind_names (joy_map fr1))) \<and>
         (\<exists>t. (m, c) \<in> set (hooks_for (class_listeners (listener fr1)) n (\<not> runs_sequential m) t))"
proof -
  define tables where "tables =
     (if jd \<noteq> Val PNone then
        (case JoyMap_generate_bind (joy_map fr) n jd of
           Inl e \<Rightarrow> Inl e | Inr joy_map' \<Rightarrow> Inr (fr\<lparr>joy_map := joy_map'\<rparr>))
      else
        (case KeyMap_generate_bind (key_map fr) n k md of
           Inl e \<Rightarrow> Inl e | Inr key_map' \<Rightarrow> Inr (fr\<lparr>key_map := key_map'\<rparr>)))"
  from assms obtain fr0 t where t0: "tables = Inr fr0" and t: "hashable ty = Inr t"
    and f: "fr1 = fr0\<lparr>listener := (listener fr0)
              \<lparr>class_listeners := index_put (class_listeners (listener fr0)) n (\<not> runs_sequential m) t
                   (hooks_for (class_listeners (listener fr0)) n (\<not> runs_sequential m) t @ [(m, c)]),
               class_listener_binds := setdefault_append m n (class_listener_binds (listener fr0)),
               assigned_classes := setdefault_append c m (assigned_classes (listener fr0))\<rparr>\<rparr>"
  proof -
    have eq: "capture_method fr c m (n, k, md, ty, jd) =
       (case tables of
          Inl e \<Rightarrow> Inl e
        | Inr fr0 \<Rightarrow>
            (case hashable ty of
               Inl e \<Rightarrow> Inl e
             | Inr t \<Rightarrow> Inr (fr0\<lparr>listener := (listener fr0)
                  \<lparr>class_listeners := index_put (class_listeners (listener fr0)) n (\<not> runs_sequential m) t
                       (hooks_for (class_listeners (listener fr0)) n (\<not> runs_sequential m) t @ [(m, c)]),
                   class_listener_binds := setdefault_append m n (class_listener_binds (listener fr0)),
                   assigned_classes := setdefault_append c m (assigned_classes (listener fr0))\<rparr>\<rparr>)))"
      unfolding capture_method_def tables_def Let_def by (simp split: sum.splits)
    from assms that show ?thesis
      unfolding eq by (cases tables; cases "hashable ty") auto
  qed
  from t0 have reg: "n \<in> set (key_names (key_map fr0)) \<or> n \<in> set (bind_names (joy_map fr0))"
    by (auto simp: tables_def split: if_splits sum.splits
        dest: generate_bind_registers key_generate_bind_registers)
  have "(m, c) \<in> set (hooks_for (class_listeners (listener fr1)) n (\<not> runs_sequential m) t)"
    by (simp add: f hooks_for_index_put)
  with reg f show ?thesis by auto
qed

lemma clear_bind_eliminates:
  assumes "map_of (key_hooks (listener fr)) b \<noteq> None"
  shows "b \<notin> set (key_names (key_map (clear_bind fr b True)))"
    and "joy_invariant (joy_map fr) \<Longrightarrow> b \<notin> set (bind_names (joy_map (clear_bind fr b True)))"
  using assms
  by (auto simp: clear_bind_def key_names_remove_bind joy_invariant_def bind_names_remove_bind)

lemma rebind_joystick_then_get:
  assumes inv: "joy_invariant (joy_map fr)" and old: "get_bound_joystick_event (joy_map fr) b = Inr old"
    and wf: "wf_dict T"
  shows "\<exists>fr1. rebind fr b [Dict T] [] = Inr (JoyTrigger old, fr1) \<and>
           get_bound_joystick_event (joy_map fr1) b = Inr (Some (drop_noise T))"
proof -
  let ?fr' = "fr\<lparr>joy_map := JoyMap_rebind' (joy_map fr) b (Some (drop_noise T))\<rparr>"
  have route: "joystick_route [Dict T] []" "new_bind_of [Dict T] [] = Dict T"
    by (simp_all add: joystick_route_def new_bind_of_def is_dict_def)
  have r: "rebind fr b [Dict T] [] = Inr (JoyTrigger old, ?fr')"
    using rebind_joystick_registered[OF old, of "Dict T"]
    by (auto simp: rebind_routes route is_dict_def)
  have g: "get_bound_joystick_event (joy_map ?fr') b = Inr (Some (drop_noise T))"
    using inv wf
    by (simp add: joy_invariant_def rebind'_get_same bound_result_def convert_pairs_distinct
        wf_drop_noise)
  from r g show ?thesis by blast
qed

lemma rebind_key_then_get:
  assumes old: "get_bound_key (key_map fr) b = Inr (old_key, old_mod)"
  shows "\<exists>fr1. rebind fr b [Val new_key, new_mod] [] = Inr (KeyTrigger old_key old_mod, fr1) \<and>
           get_bound_key (key_map fr1) b = Inr (new_key, new_mod)"
proof -
  have route: "\<not> joystick_route [Val new_key, new_mod] []"
    "new_bind_of [Val new_key, new_mod] [] = Val new_key"
    by (simp_all add: joystick_route_def new_bind_of_def is_dict_def dict_get_def truthy_def)
  show ?thesis
    by (simp add: rebind_routes route rebind_key_registered[OF old] get_bound_key_rebind)
qed

lemma resolved_binds_tables:
  "key_map a = key_map b \<Longrightarrow> joy_map a = joy_map b \<Longrightarrow> resolved_binds a ev = resolved_binds b ev"
  unfolding resolved_binds_def by (simp cong: sum.case_cong)

section \<open>C2: patterns and noise attributes\<close>

text \<open>
  Claim C2 as stated, at a concrete input. The two dicts hold the same attribute/value
  pairs in a different insertion order (Python compares them equal), and no noise
  attribute is involved; \<open>_convert_event\<close> keeps the order of \<open>items()\<close>, so the two
  patterns are different tuples, and a table that binds \<open>aim\<close> to the first pattern
  resolves the second dict to no bind.
\<close>

theorem convert_event_order_sensitive:
  "is_event_repr (Dict [(PStr ''ball'', PInt 0), (PStr ''rel'', PTuple [PInt 1, PInt 0])]) \<and>
   is_event_repr (Dict [(PStr ''rel'', PTuple [PInt 1, PInt 0]), (PStr ''ball'', PInt 0)]) \<and>
   map_of (drop_noise (event_items (Dict [(PStr ''ball'', PInt 0), (PStr ''rel'', PTuple [PInt 1, PInt 0])])))
     = map_of (drop_noise (event_items (Dict [(PStr ''rel'', PTuple [PInt 1, PInt 0]), (PStr ''ball'', PInt 0)]))) \<and>
   convert_event (Dict [(PStr ''ball'', PInt 0), (PStr ''rel'', PTuple [PInt 1, PInt 0])])
     \<noteq> convert_event (Dict [(PStr ''rel'', PTuple [PInt 1, PInt 0]), (PStr ''ball'', PInt 0)]) \<and>
   JoyMap_get [(Some [(PStr ''ball'', PInt 0), (PStr ''rel'', PTuple [PInt 1, PInt 0])], [''aim''])]
       (Dict [(PStr ''ball'', PInt 0), (PStr ''rel'', PTuple [PInt 1, PInt 0])]) None = Inr [''aim''] \<and>
   JoyMap_get [(Some [(PStr ''ball'', PInt 0), (PStr ''rel'', PTuple [PInt 1, PInt 0])], [''aim''])]
       (Dict [(PStr ''rel'', PTuple [PInt 1, PInt 0]), (PStr ''ball'', PInt 0)]) None = Inr []"
  by (simp add: is_event_repr_def wf_dict_def event_items_def drop_noise_def invalid_params_def
      convert_event_def JoyMap_get_def fun_eq_iff)

text \<open>
  Claim C2, amended. For two event representations (pygame events or dicts) whose items,
  after dropping the noise attributes \<open>value\<close>, \<open>instance_id\<close> and \<open>joy\<close>, are the same
  sequence of attribute/value pairs in the same order, whatever the noise attributes hold
  and wherever they stand, \<open>_convert_event\<close> returns equal patterns (that sequence), and
  \<open>JoyMap.get\<close> resolves both to the same list of bind names.
\<close>

theorem convert_event_ignores_noise:
  assumes "is_event_repr a" and "is_event_repr b"
    and "drop_noise (event_items a) = drop_noise (event_items b)"
  shows "convert_event a = Inr (drop_noise (event_items a)) \<and>
         convert_event a = convert_event b \<and>
         JoyMap_get self a dflt = JoyMap_get self b dflt"
proof -
  have c: "\<And>x. is_event_repr x \<Longrightarrow> convert_event x = Inr (drop_noise (event_items x))"
    by (auto simp: is_event_repr_def convert_event_def event_items_def drop_noise_def
        convert_loop_filter split: pyobj.splits)
  show ?thesis
    using assms c[of a] c[of b] by (simp add: JoyMap_get_def)
qed

text \<open>
  Witness for C2: a dict and a button event that differ in their noise attributes only.
\<close>

theorem convert_event_ignores_noise_witness:
  "is_event_repr (Dict [(PStr ''button'', PInt 0), (PStr ''instance_id'', PInt 1)]) \<and>
   is_event_repr (Event \<lparr>etype = 1539, edict = [(PStr ''joy'', PInt 0), (PStr ''instance_id'', PInt 0), (PStr ''button'', PInt 0)]\<rparr>) \<and>
   convert_event (Dict [(PStr ''button'', PInt 0), (PStr ''instance_id'', PInt 1)])
     = convert_event (Event \<lparr>etype = 1539, edict = [(PStr ''joy'', PInt 0), (PStr ''instance_id'', PInt 0), (PStr ''button'', PInt 0)]\<rparr>) \<and>
   JoyMap_get [(Some [(PStr ''button'', PInt 0)], [''fire''])]
       (Event \<lparr>etype = 1539, edict = [(PStr ''joy'', PInt 0), (PStr ''instance_id'', PInt 0), (PStr ''button'', PInt 0)]\<rparr>) None
     = Inr [''fire'']"
proof -
  let ?a = "Dict [(PStr ''button'', PInt 0), (PStr ''instance_id'', PInt 1)]"
  let ?b = "Event \<lparr>etype = 1539, edict = [(PStr ''joy'', PInt 0), (PStr ''instance_id'', PInt 0), (PStr ''button'', PInt 0)]\<rparr>"
  have a: "is_event_repr ?a" and b: "is_event_repr ?b"
    by (simp_all add: is_event_repr_def wf_dict_def)
  have e: "drop_noise (event_items ?a) = drop_noise (event_items ?b)"
    by (simp add: drop_noise_def event_items_def invalid_params_def)
  have t: "convert_event ?a = convert_event ?b"
    using convert_event_ignores_noise[OF a b e] by blast
  have g: "JoyMap_get [(Some [(PStr ''button'', PInt 0)], [''fire''])] ?b None = Inr [''fire'']"
    by (simp add: JoyMap_get_def convert_event_def invalid_params_def)
  from a b t g show ?thesis by blast
qed

section \<open>C6: merge\<close>

text \<open>
  Claim C6. Merge is bind-granular with latter-wins semantics: after \<open>A.merge(B)\<close> every
  bind name occurring in \<open>B\<close> is bound in \<open>A\<close> to the trigger it had in \<open>B\<close>, every other
  bind name has in \<open>A\<close> what it had before (its trigger, or no entry), and the packed
  bind-to-trigger mapping of the result is that of \<open>A\<close> overridden by that of \<open>B\<close>. Both
  tables are joystick tables that satisfy the table invariant.
\<close>

theorem merge_latter_wins:
  assumes "joy_invariant A" and "joy_invariant B"
  shows "(\<forall>b \<in> set (bind_names B).
            get_bound_joystick_event (JoyMap_merge A B) b = get_bound_joystick_event B b) \<and>
         (\<forall>b. b \<notin> set (bind_names B) \<longrightarrow>
            get_bound_joystick_event (JoyMap_merge A B) b = get_bound_joystick_event A b) \<and>
         map_of (JoyMap_pack_binds (JoyMap_merge A B))
           = map_of (JoyMap_pack_binds A) ++ map_of (JoyMap_pack_binds B)"
proof -
  from assms have a: "wf_dict A" "one_list_per_bind A" and b: "one_list_per_bind B"
    by (simp_all add: joy_invariant_def)
  have m: "one_list_per_bind (JoyMap_merge A B)"
    using a b by (rule merge_invariant)
  show ?thesis
    using a b m by (simp add: merge_get_bound pack_binds_trigger merge_trigger)
qed

text \<open>
  Witness for C6, the example of the claim: \<open>A = {x: K1, y: K2}\<close> and
  \<open>B = {y: K3, z: K4}\<close> merge to \<open>{x: K1, y: K3, z: K4}\<close>.
\<close>

theorem merge_latter_wins_witness:
  "joy_invariant [(Some [(PStr ''button'', PInt 1)], [''x'']), (Some [(PStr ''button'', PInt 2)], [''y''])] \<and>
   joy_invariant [(Some [(PStr ''button'', PInt 3)], [''y'']), (Some [(PStr ''button'', PInt 4)], [''z''])] \<and>
   JoyMap_pack_binds (JoyMap_merge
       [(Some [(PStr ''button'', PInt 1)], [''x'']), (Some [(PStr ''button'', PInt 2)], [''y''])]
       [(Some [(PStr ''button'', PInt 3)], [''y'']), (Some [(PStr ''button'', PInt 4)], [''z''])])
     = [(''x'', Some [(PStr ''button'', PInt 1)]), (''y'', Some [(PStr ''button'', PInt 3)]),
        (''z'', Some [(PStr ''button'', PInt 4)])] \<and>
   get_bound_joystick_event (JoyMap_merge
       [(Some [(PStr ''button'', PInt 1)], [''x'']), (Some [(PStr ''button'', PInt 2)], [''y''])]
       [(Some [(PStr ''button'', PInt 3)], [''y'']), (Some [(PStr ''button'', PInt 4)], [''z''])]) ''y''
     = Inr (Some [(PStr ''button'', PInt 3)])"
proof -
  let ?A = "[(Some [(PStr ''button'', PInt 1)], [''x'']), (Some [(PStr ''button'', PInt 2)], [''y''])] :: JoyMap"
  let ?B = "[(Some [(PStr ''button'', PInt 3)], [''y'']), (Some [(PStr ''button'', PInt 4)], [''z''])] :: JoyMap"
  have a: "joy_invariant ?A" and b: "joy_invariant ?B"
    by (simp_all add: joy_invariant_def wf_dict_def one_list_per_bind_def bind_names_def)
  have m: "JoyMap_merge ?A ?B =
      [(Some [(PStr ''button'', PInt 1)], [''x'']), (Some [(PStr ''button'', PInt 3)], [''y'']),
       (Some [(PStr ''button'', PInt 4)], [''z''])]"
    by (simp add: JoyMap_merge_def JoyMap_rebind'_def JoyMap_remove_bind_def dict_pop_def)
  have y: "get_bound_joystick_event (JoyMap_merge ?A ?B) ''y'' = get_bound_joystick_event ?B ''y''"
    using merge_latter_wins[OF a b] by (simp add: bind_names_def)
  have p: "JoyMap_pack_binds (JoyMap_merge ?A ?B) =
      [(''x'', Some [(PStr ''button'', PInt 1)]), (''y'', Some [(PStr ''button'', PInt 3)]),
        (''z'', Some [(PStr ''button'', PInt 4)])]"
    unfolding m by (simp add: JoyMap_pack_binds_def)
  have g: "get_bound_joystick_event ?B ''y'' = Inr (Some [(PStr ''button'', PInt 3)])"
    by (simp add: convert_pairs_def)
  from a b p y g show ?thesis by simp
qed

section \<open>C8: the table invariant\<close>

text \<open>
  Claim C8. Every joystick-table operation (\<open>generate_bind\<close>, \<open>rebind\<close>, \<open>remove_bind\<close>,
  \<open>merge\<close>) preserves the invariant that no bind name occurs twice, within one list or
  across lists (and that the table is a dict: its keys are pairwise different), provided
  the invariant held before and, for \<open>merge\<close>, holds in the other table. \<open>generate_bind\<close>
  and \<open>rebind\<close> do return a table when they are given a dict or \<open>None\<close>.
\<close>

theorem joy_invariant_preserved:
  assumes "joy_invariant self"
  shows "(\<forall>r. JoyMap_generate_bind self n d = Inr r \<longrightarrow> joy_invariant r) \<and>
         (optional_dict d \<longrightarrow> (\<exists>r. JoyMap_generate_bind self n d = Inr r)) \<and>
         (\<forall>r. JoyMap_rebind self n d = Inr r \<longrightarrow> joy_invariant r) \<and>
         (optional_dict d \<longrightarrow> (\<exists>r. JoyMap_rebind self n d = Inr r)) \<and>
         joy_invariant (JoyMap_remove_bind self n) \<and>
         (joy_invariant other \<longrightarrow> joy_invariant (JoyMap_merge self other))"
proof -
  from assms have w: "wf_dict self" and o: "one_list_per_bind self"
    by (simp_all add: joy_invariant_def)
  have sa: "\<And>k. get_bound_joystick_event self n = Inl ValueError \<Longrightarrow>
      joy_invariant (setdefault_append k n self)"
    using w o by (simp add: joy_invariant_def wf_setdefault_append distinct_setdefault_append
        get_bound_ValueError)
  have g: "\<forall>r. JoyMap_generate_bind self n d = Inr r \<longrightarrow> joy_invariant r"
    using assms sa
    by (auto simp: JoyMap_generate_bind_def split: sum.splits error.splits if_splits)
  have conv: "optional_dict d \<Longrightarrow> d \<noteq> Val PNone \<Longrightarrow> \<exists>p. convert_event d = Inr p"
    by (auto simp: optional_dict_def convert_event_def split: pyobj.splits)
  have g2: "optional_dict d \<longrightarrow> (\<exists>r. JoyMap_generate_bind self n d = Inr r)"
    using conv by (auto simp: JoyMap_generate_bind_def split: sum.splits error.splits
        dest: get_bound_error)
  have rb: "\<And>k. joy_invariant (JoyMap_rebind' self n k)"
    using w o by (simp add: joy_invariant_def rebind'_wf rebind'_one_list)
  have r: "\<forall>r. JoyMap_rebind self n d = Inr r \<longrightarrow> joy_invariant r"
    using rb by (auto simp: JoyMap_rebind_def split: sum.splits if_splits)
  have r2: "optional_dict d \<longrightarrow> (\<exists>r. JoyMap_rebind self n d = Inr r)"
    using conv by (auto simp: JoyMap_rebind_def split: sum.splits)
  have rm: "joy_invariant (JoyMap_remove_bind self n)"
    using w o by (simp add: joy_invariant_def wf_remove_bind bind_names_remove_bind)
  have m: "joy_invariant other \<longrightarrow> joy_invariant (JoyMap_merge self other)"
    using w o by (simp add: joy_invariant_def merge_invariant)
  from g g2 r r2 rm m show ?thesis by blast
qed

text \<open>Witness for C8: the four operations on a table with a bound and an unbound bind.\<close>

theorem joy_invariant_preserved_witness:
  "joy_invariant [(Some [(PStr ''button'', PInt 0)], [''fire'']), (None, [''jump''])] \<and>
   joy_invariant [(Some [(PStr ''button'', PInt 0)], [''jump''])] \<and>
   JoyMap_generate_bind [(Some [(PStr ''button'', PInt 0)], [''fire'']), (None, [''jump''])] ''duck''
       (Dict [(PStr ''button'', PInt 0), (PStr ''joy'', PInt 0)])
     = Inr [(Some [(PStr ''button'', PInt 0)], [''fire'', ''duck'']), (None, [''jump''])] \<and>
   joy_invariant [(Some [(PStr ''button'', PInt 0)], [''fire'', ''duck'']), (None, [''jump''])] \<and>
   JoyMap_rebind [(Some [(PStr ''button'', PInt 0)], [''fire'']), (None, [''jump''])] ''jump''
       (Dict [(PStr ''button'', PInt 0), (PStr ''joy'', PInt 0)])
     = Inr [(Some [(PStr ''button'', PInt 0)], [''fire'', ''jump''])] \<and>
   joy_invariant [(Some [(PStr ''button'', PInt 0)], [''fire'', ''jump''])] \<and>
   joy_invariant (JoyMap_remove_bind [(Some [(PStr ''button'', PInt 0)], [''fire'']), (None, [''jump''])] ''jump'') \<and>
   joy_invariant (JoyMap_merge [(Some [(PStr ''button'', PInt 0)], [''fire'']), (None, [''jump''])]
       [(Some [(PStr ''button'', PInt 0)], [''jump''])])"
proof -
  let ?s = "[(Some [(PStr ''button'', PInt 0)], [''fire'']), (None, [''jump''])] :: JoyMap"
  let ?o = "[(Some [(PStr ''button'', PInt 0)], [''jump''])] :: JoyMap"
  let ?d = "Dict [(PStr ''button'', PInt 0), (PStr ''joy'', PInt 0)]"
  have s: "joy_invariant ?s" and o: "joy_invariant ?o"
    by (simp_all add: joy_invariant_def wf_dict_def one_list_per_bind_def bind_names_def)
  have g: "JoyMap_generate_bind ?s ''duck'' ?d
      = Inr [(Some [(PStr ''button'', PInt 0)], [''fire'', ''duck'']), (None, [''jump''])]"
    by (simp add: JoyMap_generate_bind_def convert_event_def invalid_params_def)
  have r: "JoyMap_rebind ?s ''jump'' ?d = Inr [(Some [(PStr ''button'', PInt 0)], [''fire'', ''jump''])]"
    by (simp add: JoyMap_rebind_def JoyMap_rebind'_def JoyMap_remove_bind_def dict_pop_def
        convert_event_def invalid_params_def)
  note t1 = joy_invariant_preserved[OF s, of "''duck''" ?d ?o]
  note t2 = joy_invariant_preserved[OF s, of "''jump''" ?d ?o]
  from t1 g have g': "joy_invariant [(Some [(PStr ''button'', PInt 0)], [''fire'', ''duck'']), (None, [''jump''])]"
    by blast
  from t2 r have r': "joy_invariant [(Some [(PStr ''button'', PInt 0)], [''fire'', ''jump''])]"
    by blast
  from t2 o have rm: "joy_invariant (JoyMap_remove_bind ?s ''jump'')"
    and m: "joy_invariant (JoyMap_merge ?s ?o)" by blast+
  from s o g g' r r' rm m show ?thesis by blast
qed

section \<open>C9: remove\_bind\<close>

text \<open>
  Claim C9. For a bind name \<open>n\<close> present in a joystick table that satisfies the table
  invariant, after \<open>remove_bind(n)\<close> the lookup of \<open>n\<close> raises \<open>ValueError\<close> (not found),
  the lookup of every other name gives what it gave before, and no slot of the table is
  left with an empty list.
\<close>

theorem remove_bind_frame:
  assumes "joy_invariant self" and "n \<in> set (bind_names self)"
  shows "get_bound_joystick_event (JoyMap_remove_bind self n) n = Inl ValueError \<and>
         (\<forall>m. m \<noteq> n \<longrightarrow>
            get_bound_joystick_event (JoyMap_remove_bind self n) m = get_bound_joystick_event self m) \<and>
         (\<forall>(key, bind_list) \<in> set (JoyMap_remove_bind self n). bind_list \<noteq> [])"
  using assms
  by (auto simp: joy_invariant_def get_bound_remove_bind_same get_bound_remove_bind_other
      dest: nonempty_remove_bind)

text \<open>Witness for C9: removing \<open>fire\<close> deletes its slot and leaves \<open>jump\<close> unbound as it was.\<close>

theorem remove_bind_frame_witness:
  "joy_invariant [(Some [(PStr ''button'', PInt 0)], [''fire'']), (None, [''jump''])] \<and>
   ''fire'' \<in> set (bind_names [(Some [(PStr ''button'', PInt 0)], [''fire'']), (None, [''jump''])]) \<and>
   get_bound_joystick_event [(Some [(PStr ''button'', PInt 0)], [''fire'']), (None, [''jump''])] ''fire''
     = Inr (Some [(PStr ''button'', PInt 0)]) \<and>
   JoyMap_remove_bind [(Some [(PStr ''button'', PInt 0)], [''fire'']), (None, [''jump''])] ''fire''
     = [(None, [''jump''])] \<and>
   get_bound_joystick_event
     (JoyMap_remove_bind [(Some [(PStr ''button'', PInt 0)], [''fire'']), (None, [''jump''])] ''fire'') ''fire''
     = Inl ValueError \<and>
   get_bound_joystick_event
     (JoyMap_remove_bind [(Some [(PStr ''button'', PInt 0)], [''fire'']), (None, [''jump''])] ''fire'') ''jump''
     = Inr None"
proof -
  let ?s = "[(Some [(PStr ''button'', PInt 0)], [''fire'']), (None, [''jump''])] :: JoyMap"
  have s: "joy_invariant ?s" and n: "''fire'' \<in> set (bind_names ?s)"
    by (simp_all add: joy_invariant_def wf_dict_def one_list_per_bind_def bind_names_def)
  have b: "get_bound_joystick_event ?s ''fire'' = Inr (Some [(PStr ''button'', PInt 0)])"
    and j: "get_bound_joystick_event ?s ''jump'' = Inr None"
    by (simp_all add: convert_pairs_def)
  have r: "JoyMap_remove_bind ?s ''fire'' = [(None, [''jump''])]"
    by (simp add: JoyMap_remove_bind_def dict_pop_def)
  note t = remove_bind_frame[OF s n]
  from t have e: "get_bound_joystick_event (JoyMap_remove_bind ?s ''fire'') ''fire'' = Inl ValueError"
    by blast
  from t j have k: "get_bound_joystick_event (JoyMap_remove_bind ?s ''fire'') ''jump'' = Inr None"
    by simp
  from s n b r e k show ?thesis by blast
qed

section \<open>C1: the modifier rule\<close>

text \<open>
  Claim C1. For a key event that carries key code \<open>K\<close> and modifier bitmask \<open>M\<close> and for every
  \<open>KeyBind\<close> stored under \<open>K\<close> in the key table (each with \<open>mod\<close> equal to \<open>None\<close> or an
  integer): \<open>_validate_input\<close> accepts the bind when its \<open>mod\<close> is \<open>None\<close>; when \<open>mod\<close> is an
  integer \<open>m\<close> it accepts exactly when \<open>m\<close> shares a set bit with \<open>M\<close> or \<open>m = M\<close>, so
  \<open>mod = KMOD_NONE\<close> matches exactly the events with \<open>M = 0\<close>; it rejects when \<open>m\<close> shares no
  bit with \<open>M\<close> and differs from it. The key binds that the event resolves to are those
  that satisfy this rule, in the order of the list.
\<close>

theorem validate_input_modifier_rule:
  assumes "getattr_event ev ''key'' = PInt K" and "getattr_event ev ''mod'' = PInt M"
    and "dict_get (key_map fr) (PInt K) [] = binds"
    and "\<forall>kb \<in> set binds. optional_int (mod' kb)"
  shows "(\<forall>kb \<in> set binds. mod' kb = Val PNone \<longrightarrow> validate_input kb ev = Inr True) \<and>
         (\<forall>kb \<in> set binds. \<forall>m. mod' kb = Val (PInt m) \<longrightarrow>
            validate_input kb ev = Inr (m AND M \<noteq> 0 \<or> m = M)) \<and>
         (\<forall>kb \<in> set binds. mod' kb = Val (PInt KMOD_NONE) \<longrightarrow> validate_input kb ev = Inr (M = 0)) \<and>
         (\<forall>kb \<in> set binds. \<forall>m. mod' kb = Val (PInt m) \<and> m AND M = 0 \<and> m \<noteq> M \<longrightarrow>
            validate_input kb ev = Inr False) \<and>
         (\<exists>joy_names. resolved_binds fr ev =
            Inr (map bind_name (filter (\<lambda>kb. mod_matches (mod' kb) M) binds) @ joy_names))"
proof -
  have v: "\<And>kb. kb \<in> set binds \<Longrightarrow> validate_input kb ev = Inr (mod_matches (mod' kb) M)"
    using assms(4) by (simp add: validate_input_int[OF assms(1,2)])
  have 1: "\<forall>kb \<in> set binds. mod' kb = Val PNone \<longrightarrow> validate_input kb ev = Inr True"
    using v by (auto simp: mod_matches_def)
  have 2: "\<forall>kb \<in> set binds. \<forall>m. mod' kb = Val (PInt m) \<longrightarrow>
            validate_input kb ev = Inr (m AND M \<noteq> 0 \<or> m = M)"
    using v by (auto simp: mod_matches_def)
  have 3: "\<forall>kb \<in> set binds. mod' kb = Val (PInt KMOD_NONE) \<longrightarrow> validate_input kb ev = Inr (M = 0)"
    using v by (auto simp: mod_matches_def KMOD_NONE_def)
  have 4: "\<forall>kb \<in> set binds. \<forall>m. mod' kb = Val (PInt m) \<and> m AND M = 0 \<and> m \<noteq> M \<longrightarrow>
            validate_input kb ev = Inr False"
    using v by (auto simp: mod_matches_def)
  have j: "\<exists>p. convert_event (Event ev) = Inr p"
    by (simp add: convert_event_def)
  have 5: "\<exists>joy_names. resolved_binds fr ev =
            Inr (map bind_name (filter (\<lambda>kb. mod_matches (mod' kb) M) binds) @ joy_names)"
    using j assms(3,4)
    by (auto simp: resolved_binds_def assms(1) validated_binds_int[OF assms(1,2)] JoyMap_get_def)
  from 1 2 3 4 5 show ?thesis by blast
qed

text \<open>Witness for C1: a key-down of key 32 with modifier bitmask 1 against four binds.\<close>

theorem validate_input_modifier_rule_witness:
  "getattr_event \<lparr>etype = KEYDOWN, edict = [(PStr ''key'', PInt 32), (PStr ''mod'', PInt 1)]\<rparr> ''key'' = PInt 32 \<and>
   getattr_event \<lparr>etype = KEYDOWN, edict = [(PStr ''key'', PInt 32), (PStr ''mod'', PInt 1)]\<rparr> ''mod'' = PInt 1 \<and>
   validate_input \<lparr>bind_name = ''jump'', mod' = Val PNone\<rparr>
     \<lparr>etype = KEYDOWN, edict = [(PStr ''key'', PInt 32), (PStr ''mod'', PInt 1)]\<rparr> = Inr True \<and>
   validate_input \<lparr>bind_name = ''run'', mod' = Val (PInt 3)\<rparr>
     \<lparr>etype = KEYDOWN, edict = [(PStr ''key'', PInt 32), (PStr ''mod'', PInt 1)]\<rparr> = Inr True \<and>
   validate_input \<lparr>bind_name = ''walk'', mod' = Val (PInt KMOD_NONE)\<rparr>
     \<lparr>etype = KEYDOWN, edict = [(PStr ''key'', PInt 32), (PStr ''mod'', PInt 1)]\<rparr> = Inr False \<and>
   validate_input \<lparr>bind_name = ''duck'', mod' = Val (PInt 64)\<rparr>
     \<lparr>etype = KEYDOWN, edict = [(PStr ''key'', PInt 32), (PStr ''mod'', PInt 1)]\<rparr> = Inr False \<and>
   resolved_binds
     \<lparr>key_map = [(PInt 32, [\<lparr>bind_name = ''jump'', mod' = Val PNone\<rparr>,
                             \<lparr>bind_name = ''run'', mod' = Val (PInt 3)\<rparr>,
                             \<lparr>bind_name = ''walk'', mod' = Val (PInt KMOD_NONE)\<rparr>,
                             \<lparr>bind_name = ''duck'', mod' = Val (PInt 64)\<rparr>])],
      joy_map = [], logged = [], listener = KeyListener_init ''main''\<rparr>
     \<lparr>etype = KEYDOWN, edict = [(PStr ''key'', PInt 32), (PStr ''mod'', PInt 1)]\<rparr>
     = Inr [''jump'', ''run'']"
proof -
  let ?ev = "\<lparr>etype = KEYDOWN, edict = [(PStr ''key'', PInt 32), (PStr ''mod'', PInt 1)]\<rparr>"
  let ?binds = "[\<lparr>bind_name = ''jump'', mod' = Val PNone\<rparr>,
                 \<lparr>bind_name = ''run'', mod' = Val (PInt 3)\<rparr>,
                 \<lparr>bind_name = ''walk'', mod' = Val (PInt KMOD_NONE)\<rparr>,
                 \<lparr>bind_name = ''duck'', mod' = Val (PInt 64)\<rparr>]"
  let ?fr = "\<lparr>key_map = [(PInt 32, ?binds)], joy_map = [], logged = [],
      listener = KeyListener_init ''main''\<rparr>"
  have k: "getattr_event ?ev ''key'' = PInt 32" and m: "getattr_event ?ev ''mod'' = PInt 1"
    by (simp_all add: getattr_event_def dict_get_def)
  have b: "dict_get (key_map ?fr) (PInt 32) [] = ?binds"
    by (simp add: dict_get_def)
  have o: "\<forall>kb \<in> set ?binds. optional_int (mod' kb)"
    by (simp add: optional_int_def)
  note t = validate_input_modifier_rule[OF k m b o]
  have r: "resolved_binds ?fr ?ev = Inr [''jump'', ''run'']"
    by (simp add: resolved_binds_def getattr_event_def dict_get_def validate_input_def
        JoyMap_get_def convert_event_def invalid_params_def KMOD_NONE_def is_int_def)
  from t have 1: "validate_input \<lparr>bind_name = ''jump'', mod' = Val PNone\<rparr> ?ev = Inr True"
    by simp
  from t have 2: "validate_input \<lparr>bind_name = ''run'', mod' = Val (PInt 3)\<rparr> ?ev = Inr True"
    by simp
  from t have 3: "validate_input \<lparr>bind_name = ''walk'', mod' = Val (PInt KMOD_NONE)\<rparr> ?ev = Inr False"
    by (simp add: KMOD_NONE_def)
  from t have 4: "validate_input \<lparr>bind_name = ''duck'', mod' = Val (PInt 64)\<rparr> ?ev = Inr False"
    by simp
  from k m 1 2 3 4 r show ?thesis by blast
qed

section \<open>C3: clear\_bind\<close>

text \<open>
  Claim C3 at a failing input. The bind \<open>jump\<close> is in the key table and has a handler in the
  class-method index only (it was registered through \<open>_capture_method\<close>).
  \<open>clear_bind("jump", eliminate_bind=True)\<close> pops \<open>_key_hooks\<close>, finds nothing, warns and
  returns: both tables and the class-method index are as before, and the next key-down of
  key 32 still resolves \<open>jump\<close> to the method.
\<close>

theorem clear_bind_eliminate_skips_method_binds:
  "clear_bind
     \<lparr>key_map = [(PInt 32, [\<lparr>bind_name = ''jump'', mod' = Val PNone\<rparr>])], joy_map = [], logged = [],
      listener = \<lparr>handle = ''main'', key_hooks = [],
        class_listeners = [(''jump'', [(True, [(PInt KEYDOWN, [(Callable ''on_jump'' False, ''Player'')])])])],
        class_listener_binds = [(Callable ''on_jump'' False, [''jump''])],
        assigned_classes = [(''Player'', [Callable ''on_jump'' False])]\<rparr>\<rparr>
     ''jump'' True
   = \<lparr>key_map = [(PInt 32, [\<lparr>bind_name = ''jump'', mod' = Val PNone\<rparr>])], joy_map = [], logged = [WARNING],
      listener = \<lparr>handle = ''main'', key_hooks = [],
        class_listeners = [(''jump'', [(True, [(PInt KEYDOWN, [(Callable ''on_jump'' False, ''Player'')])])])],
        class_listener_binds = [(Callable ''on_jump'' False, [''jump''])],
        assigned_classes = [(''Player'', [Callable ''on_jump'' False])]\<rparr>\<rparr> \<and>
   get_callables
     (clear_bind
       \<lparr>key_map = [(PInt 32, [\<lparr>bind_name = ''jump'', mod' = Val PNone\<rparr>])], joy_map = [], logged = [],
        listener = \<lparr>handle = ''main'', key_hooks = [],
          class_listeners = [(''jump'', [(True, [(PInt KEYDOWN, [(Callable ''on_jump'' False, ''Player'')])])])],
          class_listener_binds = [(Callable ''on_jump'' False, [''jump''])],
          assigned_classes = [(''Player'', [Callable ''on_jump'' False])]\<rparr>\<rparr>
       ''jump'' True)
     \<lparr>etype = KEYDOWN, edict = [(PStr ''key'', PInt 32), (PStr ''mod'', PInt 0)]\<rparr>
   = Inr \<lparr>concurrent_functions = [], sequential_functions = [],
          concurrent_methods = [(Callable ''on_jump'' False, ''Player'')], sequential_methods = []\<rparr>"
  by (simp add: clear_bind_def log_record_def get_callables_def resolved_binds_def
      getattr_event_def dict_get_def validate_input_def JoyMap_get_def convert_event_def
      invalid_params_def hooks_for_def KEYDOWN_def)

text \<open>
  The half of C3 that the code does keep: without \<open>eliminate_bind\<close> both tables are
  untouched and the bind has no handler left in either index.
\<close>

lemma clear_bind_keeps_tables:
  "key_map (clear_bind fr b False) = key_map fr \<and>
   joy_map (clear_bind fr b False) = joy_map fr \<and>
   hooks_for (key_hooks (listener (clear_bind fr b False))) b c ty = [] \<and>
   hooks_for (class_listeners (listener (clear_bind fr b False))) b c ty = []"
proof -
  have h: "\<And>idx. map_of idx b = None \<or> map_of idx b = Some [] \<Longrightarrow> hooks_for idx b c ty = []"
    by (auto simp: hooks_for_def dict_get_def)
  have s: "\<And>idx. hooks_for (dict_set b [] idx) b c ty = []"
    by (simp add: hooks_for_def dict_get_def map_of_dict_set)
  show ?thesis
    by (simp add: clear_bind_def log_record_def Let_def h s)
qed

section \<open>C4: save and load\<close>

text \<open>
  Claim C4 at a failing input. A joystick table with the unbound bind \<open>jump\<close> (trigger
  \<open>None\<close>) is saved as \<open>{"controller": {"jump": null}}\<close>; loading that file raises
  \<open>TypeError\<close> in \<open>_unpack_joystick\<close>, which iterates over the trigger without testing it
  for \<open>None\<close>.
\<close>

theorem load_after_save_unbound_raises:
  "JoyMap_pack_binds [(None, [''jump''])] = [(''jump'', None)] \<and>
   JSONParser_save (JObj []) [(None, [''jump''])]
     = JObj [(''keys'', JObj []), (''controller'', JObj [(''jump'', JNull)])] \<and>
   JSONParser_load_joystick (JSONParser_save (JObj []) [(None, [''jump''])]) = Inl TypeError"
  by (simp add: JoyMap_pack_binds_def JSONParser_save_def trigger_to_json_def
      JSONParser_load_joystick_def dict_get_def unpack_joystick_def py_iter_def)

text \<open>With bound triggers only, the same table comes back.\<close>

lemma load_after_save_bound_example:
  "JSONParser_load_joystick (JSONParser_save (JObj [])
      [(Some [(PStr ''button'', PInt 0)], [''fire'', ''shoot'']), (Some [(PStr ''hat'', PInt 1)], [''look''])])
   = Inr [(Some [(PStr ''button'', PInt 0)], [''fire'', ''shoot'']), (Some [(PStr ''hat'', PInt 1)], [''look''])]"
  by (simp add: JoyMap_pack_binds_def JSONParser_save_def trigger_to_json_def
      JSONParser_load_joystick_def dict_get_def unpack_joystick_def py_iter_def py_index_def
      hash_jval_def)

section \<open>C5: rebind and lookup\<close>

text \<open>
  Claim C5 as stated, at a concrete input. \<open>fire\<close> is bound to button 0; it is rebound to
  the trigger \<open>T = {"button": 1, "instance_id": 0}\<close>. \<open>rebind\<close> returns the previous
  trigger, but the following lookup returns \<open>{"button": 1}\<close>, which is not \<open>T\<close>: the two
  dicts differ at \<open>instance_id\<close>.
\<close>

theorem rebind_noise_not_returned:
  "get_bound_joystick_event [(Some [(PStr ''button'', PInt 0)], [''fire''])] ''fire''
     = Inr (Some [(PStr ''button'', PInt 0)]) \<and>
   rebind \<lparr>key_map = [], joy_map = [(Some [(PStr ''button'', PInt 0)], [''fire''])], logged = [],
           listener = KeyListener_init ''main''\<rparr>
     ''fire'' [Dict [(PStr ''button'', PInt 1), (PStr ''instance_id'', PInt 0)]] []
   = Inr (JoyTrigger (Some [(PStr ''button'', PInt 0)]),
          \<lparr>key_map = [], joy_map = [(Some [(PStr ''button'', PInt 1)], [''fire''])], logged = [],
           listener = KeyListener_init ''main''\<rparr>) \<and>
   get_bound_joystick_event [(Some [(PStr ''button'', PInt 1)], [''fire''])] ''fire''
     = Inr (Some [(PStr ''button'', PInt 1)]) \<and>
   map_of [(PStr ''button'', PInt 1)] (PStr ''instance_id'')
     \<noteq> map_of [(PStr ''button'', PInt 1), (PStr ''instance_id'', PInt 0)] (PStr ''instance_id'')"
  by (simp add: rebind_def rebind_joystick_def JoyMap_rebind_def JoyMap_rebind'_def
      JoyMap_remove_bind_def dict_pop_def convert_event_def invalid_params_def convert_pairs_def
      dict_get_def truthy_def is_dict_def)

text \<open>
  A trigger passed by keyword is dropped: \<open>rebind("fire", new_joystick_data={"button": 1})\<close>
  leaves \<open>fire\<close> unbound, since \<open>new_bind\<close> is read from \<open>args[0]\<close> or from the keyword
  \<open>new_key\<close> only.
\<close>

lemma rebind_keyword_joystick_data_unbinds:
  "rebind \<lparr>key_map = [], joy_map = [(Some [(PStr ''button'', PInt 0)], [''fire''])], logged = [],
           listener = KeyListener_init ''main''\<rparr>
     ''fire'' [] [(''new_joystick_data'', Dict [(PStr ''button'', PInt 1)])]
   = Inr (JoyTrigger (Some [(PStr ''button'', PInt 0)]),
          \<lparr>key_map = [], joy_map = [(None, [''fire''])], logged = [],
           listener = KeyListener_init ''main''\<rparr>)"
  by (simp add: rebind_def rebind_joystick_def JoyMap_rebind_def JoyMap_rebind'_def
      JoyMap_remove_bind_def dict_pop_def convert_pairs_def
      dict_get_def truthy_def is_dict_def)

text \<open>
  Claim C5, amended. For a bind name \<open>b\<close> present in the joystick table (a table that
  satisfies the table invariant) and a new trigger \<open>T\<close>, a dict passed as the positional
  argument: \<open>rebind(b, T)\<close> returns the trigger previously bound to \<open>b\<close>, and the following
  \<open>get_bound_joystick_event(b)\<close> returns \<open>T\<close> without its noise attributes, which is exactly
  \<open>T\<close> when \<open>T\<close> has none. For a bind name \<open>b\<close> present in the key table and a new key and
  modifier passed as positional arguments: \<open>rebind(b, key, mod)\<close> returns the previous
  \<open>(key, mod)\<close>, and the following \<open>get_bound_key(b)\<close> returns exactly the new \<open>(key, mod)\<close>.
\<close>

theorem rebind_then_get_bound:
  "(joy_invariant (joy_map fr) \<and> get_bound_joystick_event (joy_map fr) b = Inr old \<and> wf_dict T \<longrightarrow>
      (\<exists>fr'. rebind fr b [Dict T] kwds = Inr (JoyTrigger old, fr') \<and>
         get_bound_joystick_event (joy_map fr') b = Inr (Some (drop_noise T)) \<and>
         (set (map fst T) \<inter> set invalid_params = {} \<longrightarrow>
            get_bound_joystick_event (joy_map fr') b = Inr (Some T)))) \<and>
   (get_bound_key (key_map fr) b = Inr (old_key, old_mod) \<longrightarrow>
      (\<exists>fr'. rebind fr b [Val new_key, new_mod] [] = Inr (KeyTrigger old_key old_mod, fr') \<and>
         get_bound_key (key_map fr') b = Inr (new_key, new_mod)))"
proof -
  have joy: "\<exists>fr'. rebind fr b [Dict T] kwds = Inr (JoyTrigger old, fr') \<and>
         get_bound_joystick_event (joy_map fr') b = Inr (Some (drop_noise T)) \<and>
         (set (map fst T) \<inter> set invalid_params = {} \<longrightarrow>
            get_bound_joystick_event (joy_map fr') b = Inr (Some T))"
    if inv: "joy_invariant (joy_map fr)" and old: "get_bound_joystick_event (joy_map fr) b = Inr old"
      and wf: "wf_dict T"
  proof -
    let ?fr' = "fr\<lparr>joy_map := JoyMap_rebind' (joy_map fr) b (Some (drop_noise T))\<rparr>"
    have route: "joystick_route [Dict T] kwds" "new_bind_of [Dict T] kwds = Dict T"
      by (simp_all add: joystick_route_def new_bind_of_def is_dict_def)
    have r: "rebind fr b [Dict T] kwds = Inr (JoyTrigger old, ?fr')"
      using rebind_joystick_registered[OF old, of "Dict T"]
      by (auto simp: rebind_routes route is_dict_def)
    have g: "get_bound_joystick_event (joy_map ?fr') b = Inr (Some (drop_noise T))"
      using inv wf
      by (simp add: joy_invariant_def rebind'_get_same bound_result_def convert_pairs_distinct
          wf_drop_noise)
    have id: "set (map fst T) \<inter> set invalid_params = {} \<Longrightarrow> drop_noise T = T"
      unfolding drop_noise_def by (rule filter_True) auto
    from r g id show ?thesis by metis
  qed
  have key: "\<exists>fr'. rebind fr b [Val new_key, new_mod] [] = Inr (KeyTrigger old_key old_mod, fr') \<and>
         get_bound_key (key_map fr') b = Inr (new_key, new_mod)"
    if old: "get_bound_key (key_map fr) b = Inr (old_key, old_mod)"
  proof -
    have route: "\<not> joystick_route [Val new_key, new_mod] []"
      "new_bind_of [Val new_key, new_mod] [] = Val new_key"
      by (simp_all add: joystick_route_def new_bind_of_def is_dict_def dict_get_def truthy_def)
    show ?thesis
      by (simp add: rebind_routes route rebind_key_registered[OF old] get_bound_key_rebind)
  qed
  from joy key show ?thesis by blast
qed

text \<open>Witness for C5: a joystick bind and a key bind, each rebound and looked up.\<close>

theorem rebind_then_get_bound_witness:
  "joy_invariant [(Some [(PStr ''button'', PInt 0)], [''fire''])] \<and>
   wf_dict [(PStr ''button'', PInt 1), (PStr ''instance_id'', PInt 0)] \<and>
   get_bound_joystick_event [(Some [(PStr ''button'', PInt 0)], [''fire''])] ''fire''
     = Inr (Some [(PStr ''button'', PInt 0)]) \<and>
   get_bound_key [(PInt 32, [\<lparr>bind_name = ''jump'', mod' = Val PNone\<rparr>])] ''jump''
     = Inr (PInt 32, Val PNone) \<and>
   (\<exists>fr'. rebind \<lparr>key_map = [(PInt 32, [\<lparr>bind_name = ''jump'', mod' = Val PNone\<rparr>])],
                   joy_map = [(Some [(PStr ''button'', PInt 0)], [''fire''])], logged = [],
                   listener = KeyListener_init ''main''\<rparr>
            ''fire'' [Dict [(PStr ''button'', PInt 1), (PStr ''instance_id'', PInt 0)]] []
          = Inr (JoyTrigger (Some [(PStr ''button'', PInt 0)]), fr') \<and>
          get_bound_joystick_event (joy_map fr') ''fire'' = Inr (Some [(PStr ''button'', PInt 1)])) \<and>
   (\<exists>fr'. rebind \<lparr>key_map = [(PInt 32, [\<lparr>bind_name = ''jump'', mod' = Val PNone\<rparr>])],
                   joy_map = [(Some [(PStr ''button'', PInt 0)], [''fire''])], logged = [],
                   listener = KeyListener_init ''main''\<rparr>
            ''jump'' [Val (PInt 13), Val (PInt 1)] []
          = Inr (KeyTrigger (PInt 32) (Val PNone), fr') \<and>
          get_bound_key (key_map fr') ''jump'' = Inr (PInt 13, Val (PInt 1)))"
proof -
  let ?fr = "\<lparr>key_map = [(PInt 32, [\<lparr>bind_name = ''jump'', mod' = Val PNone\<rparr>])],
             joy_map = [(Some [(PStr ''button'', PInt 0)], [''fire''])], logged = [],
             listener = KeyListener_init ''main''\<rparr>"
  let ?T = "[(PStr ''button'', PInt 1), (PStr ''instance_id'', PInt 0)]"
  have i: "joy_invariant (joy_map ?fr)"
    by (simp add: joy_invariant_def wf_dict_def one_list_per_bind_def bind_names_def)
  have w: "wf_dict ?T" by (simp add: wf_dict_def)
  have o: "get_bound_joystick_event (joy_map ?fr) ''fire'' = Inr (Some [(PStr ''button'', PInt 0)])"
    by (simp add: convert_pairs_def)
  have k: "get_bound_key (key_map ?fr) ''jump'' = Inr (PInt 32, Val PNone)"
    by simp
  have d: "drop_noise ?T = [(PStr ''button'', PInt 1)]"
    by (simp add: drop_noise_def invalid_params_def)
  from rebind_then_get_bound[of ?fr "''fire''" "Some [(PStr ''button'', PInt 0)]" ?T "[]"] i w o
  obtain fr1 where j1: "rebind ?fr ''fire'' [Dict ?T] [] = Inr (JoyTrigger (Some [(PStr ''button'', PInt 0)]), fr1)"
    and j2: "get_bound_joystick_event (joy_map fr1) ''fire'' = Inr (Some (drop_noise ?T))"
    by blast
  from rebind_then_get_bound[of ?fr "''jump''" _ _ _ "PInt 32" "Val PNone" "PInt 13" "Val (PInt 1)"] k
  obtain fr2 where k1: "rebind ?fr ''jump'' [Val (PInt 13), Val (PInt 1)] [] = Inr (KeyTrigger (PInt 32) (Val PNone), fr2)"
    and k2: "get_bound_key (key_map fr2) ''jump'' = Inr (PInt 13, Val (PInt 1))"
    by blast
  from i w o k j1 j2 k1 k2 show ?thesis
    unfolding d by (simp del: get_bound_joystick_event.simps get_bound_key.simps)
qed

section \<open>C7: rebind of an unregistered bind\<close>

text \<open>
  Claim C7. A call of \<open>rebind\<close> that fits one of its declared signatures never raises. If the
  bind name is not registered in the table the call is routed to (the joystick table when
  \<open>new_joystick_data\<close> is given or the first argument is a dict, else the key table), it
  returns \<open>None\<close>, logs one warning and leaves both tables and the listener as they were;
  if the bind name is registered there, it returns the bind's previous trigger.
\<close>

theorem rebind_unregistered_warns:
  assumes "key_call args kwds \<or> joystick_call args kwds"
  shows "(joystick_route args kwds \<longrightarrow>
           (get_bound_joystick_event (joy_map fr) b = Inl ValueError \<longrightarrow>
              rebind fr b args kwds = Inr (NoTrigger, fr\<lparr>logged := logged fr @ [WARNING]\<rparr>)) \<and>
           (\<forall>old. get_bound_joystick_event (joy_map fr) b = Inr old \<longrightarrow>
              (\<exists>fr'. rebind fr b args kwds = Inr (JoyTrigger old, fr')))) \<and>
         (\<not> joystick_route args kwds \<longrightarrow>
           (get_bound_key (key_map fr) b = Inl ValueError \<longrightarrow>
              rebind fr b args kwds = Inr (NoTrigger, fr\<lparr>logged := logged fr @ [WARNING]\<rparr>)) \<and>
           (\<forall>k m. get_bound_key (key_map fr) b = Inr (k, m) \<longrightarrow>
              (\<exists>fr'. rebind fr b args kwds = Inr (KeyTrigger k m, fr'))))"
proof -
  have nb: "new_bind_of args kwds = Val PNone \<or> is_dict (new_bind_of args kwds) \<or>
            (\<not> joystick_route args kwds \<and> optional_int (new_bind_of args kwds))"
    using assms key_call_route joystick_call_new_bind by blast
  have j: "joystick_route args kwds \<Longrightarrow>
      new_bind_of args kwds = Val PNone \<or> is_dict (new_bind_of args kwds)"
    using nb by blast
  have k: "\<not> joystick_route args kwds \<Longrightarrow> \<exists>v. new_bind_of args kwds = Val v"
    using nb by (auto simp: joystick_route_def optional_int_def is_dict_def split: pyobj.splits)
  have 1: "joystick_route args kwds \<Longrightarrow> get_bound_joystick_event (joy_map fr) b = Inl ValueError \<Longrightarrow>
      rebind fr b args kwds = Inr (NoTrigger, fr\<lparr>logged := logged fr @ [WARNING]\<rparr>)"
    by (simp add: rebind_routes rebind_joystick_unregistered)
  have 2: "\<And>old. joystick_route args kwds \<Longrightarrow> get_bound_joystick_event (joy_map fr) b = Inr old \<Longrightarrow>
      \<exists>fr'. rebind fr b args kwds = Inr (JoyTrigger old, fr')"
    using rebind_joystick_registered[OF _ j] by (fastforce simp: rebind_routes)
  have 3: "\<not> joystick_route args kwds \<Longrightarrow> get_bound_key (key_map fr) b = Inl ValueError \<Longrightarrow>
      rebind fr b args kwds = Inr (NoTrigger, fr\<lparr>logged := logged fr @ [WARNING]\<rparr>)"
    by (simp add: rebind_routes rebind_key_unregistered)
  have 4: "\<And>kk m. \<not> joystick_route args kwds \<Longrightarrow> get_bound_key (key_map fr) b = Inr (kk, m) \<Longrightarrow>
      \<exists>fr'. rebind fr b args kwds = Inr (KeyTrigger kk m, fr')"
    using k by (auto simp: rebind_routes rebind_key_registered)
  from 1 2 3 4 show ?thesis by blast
qed

text \<open>Witness for C7: a joystick call for a name that the joystick table lacks, and a key
  call for a registered key bind.\<close>

theorem rebind_unregistered_warns_witness:
  "joystick_call [] [(''new_joystick_data'', Dict [(PStr ''button'', PInt 1)])] \<and>
   joystick_route [] [(''new_joystick_data'', Dict [(PStr ''button'', PInt 1)])] \<and>
   rebind \<lparr>key_map = [(PInt 32, [\<lparr>bind_name = ''jump'', mod' = Val PNone\<rparr>])],
           joy_map = [(Some [(PStr ''button'', PInt 0)], [''fire''])], logged = [],
           listener = KeyListener_init ''main''\<rparr>
     ''jump'' [] [(''new_joystick_data'', Dict [(PStr ''button'', PInt 1)])]
   = Inr (NoTrigger,
          \<lparr>key_map = [(PInt 32, [\<lparr>bind_name = ''jump'', mod' = Val PNone\<rparr>])],
           joy_map = [(Some [(PStr ''button'', PInt 0)], [''fire''])], logged = [WARNING],
           listener = KeyListener_init ''main''\<rparr>) \<and>
   key_call [Val (PInt 13), Val (PInt 1)] [] \<and>
   \<not> joystick_route [Val (PInt 13), Val (PInt 1)] [] \<and>
   rebind \<lparr>key_map = [(PInt 32, [\<lparr>bind_name = ''jump'', mod' = Val PNone\<rparr>])],
           joy_map = [(Some [(PStr ''button'', PInt 0)], [''fire''])], logged = [],
           listener = KeyListener_init ''main''\<rparr>
     ''jump'' [Val (PInt 13), Val (PInt 1)] []
   = Inr (KeyTrigger (PInt 32) (Val PNone),
          \<lparr>key_map = [(PInt 13, [\<lparr>bind_name = ''jump'', mod' = Val (PInt 1)\<rparr>])],
           joy_map = [(Some [(PStr ''button'', PInt 0)], [''fire''])], logged = [],
           listener = KeyListener_init ''main''\<rparr>)"
proof -
  let ?fr = "\<lparr>key_map = [(PInt 32, [\<lparr>bind_name = ''jump'', mod' = Val PNone\<rparr>])],
           joy_map = [(Some [(PStr ''button'', PInt 0)], [''fire''])], logged = [],
           listener = KeyListener_init ''main''\<rparr>"
  let ?kw = "[(''new_joystick_data'', Dict [(PStr ''button'', PInt 1)])]"
  let ?ar = "[Val (PInt 13), Val (PInt 1)]"
  have c1: "joystick_call [] ?kw"
    by (simp add: joystick_call_def wf_dict_def optional_dict_def)
  have r1: "joystick_route [] ?kw"
    by (simp add: joystick_route_def dict_get_def truthy_def)
  have u: "get_bound_joystick_event (joy_map ?fr) ''jump'' = Inl ValueError"
    by simp
  have c2: "key_call ?ar []"
    by (simp add: key_call_def wf_dict_def optional_int_def)
  have r2: "\<not> joystick_route ?ar []"
    by (simp add: joystick_route_def new_bind_of_def dict_get_def truthy_def is_dict_def)
  have g: "get_bound_key (key_map ?fr) ''jump'' = Inr (PInt 32, Val PNone)"
    by simp
  from rebind_unregistered_warns[of "[]" ?kw ?fr "''jump''"] c1 r1 u
  have w1: "rebind ?fr ''jump'' [] ?kw = Inr (NoTrigger, ?fr\<lparr>logged := logged ?fr @ [WARNING]\<rparr>)"
    by blast
  from rebind_unregistered_warns[of ?ar "[]" ?fr "''jump''"] c2 r2 g
  obtain fr' where w2: "rebind ?fr ''jump'' ?ar [] = Inr (KeyTrigger (PInt 32) (Val PNone), fr')"
    by blast
  have e2: "rebind ?fr ''jump'' ?ar [] = Inr (KeyTrigger (PInt 32) (Val PNone),
          \<lparr>key_map = [(PInt 13, [\<lparr>bind_name = ''jump'', mod' = Val (PInt 1)\<rparr>])],
           joy_map = [(Some [(PStr ''button'', PInt 0)], [''fire''])], logged = [],
           listener = KeyListener_init ''main''\<rparr>)"
    by (simp add: rebind_def rebind_key_def dict_get_def truthy_def is_dict_def hashable_def
        KeyMap_rebind_def KeyMap_remove_bind_def)
  from c1 r1 w1 c2 r2 e2 show ?thesis by simp
qed

section \<open>C10: class attributes and instance attributes\<close>

text \<open>
  Claim C10. In every heap that the program builds, and for two different listeners \<open>h\<close>
  and \<open>h'\<close>: both read the same key table and the same joystick table, the ones of the
  class, since no instance has an attribute \<open>key_map\<close> or \<open>joy_map\<close> of its own, while each
  has its own \<open>_key_hooks\<close>, \<open>_class_listeners\<close> and \<open>_class_listener_binds\<close>. So a trigger
  created through \<open>h\<close> (by \<open>bind\<close> with its decorator, or by \<open>_capture_method\<close>) is registered
  in the tables that \<open>h'\<close> reads; a trigger rebound through \<open>h\<close> by \<open>rebind\<close> is what \<open>h'\<close>
  looks up afterwards; a bind eliminated through \<open>h\<close> by \<open>clear_bind\<close> is gone from the
  tables of \<open>h'\<close>; after each of them every event resolves to the same bind names for \<open>h'\<close>
  as for \<open>h\<close>. The three indexes of \<open>h'\<close> are what they were before each of these calls,
  while the handler registered through \<open>h\<close> is in the index of \<open>h\<close>.
\<close>

theorem tables_shared_indexes_private:
  assumes "reachable w" and "h' \<noteq> h" and "enter w h = Some fr" and "enter w h' = Some fr'"
  shows
    "key_map fr' = key_map fr \<and> joy_map fr' = joy_map fr \<and>
     (\<forall>d. map_of (instance_dicts w) h' = Some d \<longrightarrow>
        map_of d ''key_map'' = None \<and> map_of d ''joy_map'' = None \<and>
        map_of d ''_key_hooks'' \<noteq> None \<and> map_of d ''_class_listeners'' \<noteq> None \<and>
        map_of d ''_class_listener_binds'' \<noteq> None) \<and>
     (\<forall>n args kwds r fr1. bind_responder n args kwds r fr = Inr fr1 \<longrightarrow>
        (\<exists>fr1'. enter (do_bind w h n args kwds r) h' = Some fr1' \<and>
           key_map fr1' = key_map fr1 \<and> joy_map fr1' = joy_map fr1 \<and>
           (n \<in> set (key_names (key_map fr1')) \<or> n \<in> set (bind_names (joy_map fr1'))) \<and>
           (\<forall>ev. resolved_binds fr1' ev = resolved_binds fr1 ev) \<and>
           same_indexes (listener fr1') (listener fr')) \<and>
        (\<exists>frh ty. enter (do_bind w h n args kwds r) h = Some frh \<and>
           r \<in> set (hooks_for (key_hooks (listener frh)) n (\<not> runs_sequential r) ty))) \<and>
     (\<forall>c m n k md ty jd fr1. capture_method fr c m (n, k, md, ty, jd) = Inr fr1 \<longrightarrow>
        (\<exists>fr1'. enter (do_capture_method w h c m (n, k, md, ty, jd)) h' = Some fr1' \<and>
           key_map fr1' = key_map fr1 \<and> joy_map fr1' = joy_map fr1 \<and>
           (n \<in> set (key_names (key_map fr1')) \<or> n \<in> set (bind_names (joy_map fr1'))) \<and>
           (\<forall>ev. resolved_binds fr1' ev = resolved_binds fr1 ev) \<and>
           same_indexes (listener fr1') (listener fr')) \<and>
        (\<exists>frh t. enter (do_capture_method w h c m (n, k, md, ty, jd)) h = Some frh \<and>
           (m, c) \<in> set (hooks_for (class_listeners (listener frh)) n (\<not> runs_sequential m) t))) \<and>
     (\<forall>b args kwds old fr1. rebind fr b args kwds = Inr (old, fr1) \<longrightarrow>
        (\<exists>fr1'. enter (do_rebind w h b args kwds) h' = Some fr1' \<and>
           key_map fr1' = key_map fr1 \<and> joy_map fr1' = joy_map fr1 \<and>
           (\<forall>ev. resolved_binds fr1' ev = resolved_binds fr1 ev) \<and>
           same_indexes (listener fr1') (listener fr'))) \<and>
     (\<forall>b T old. joy_invariant (joy_map fr) \<and> get_bound_joystick_event (joy_map fr) b = Inr old \<and>
          wf_dict T \<longrightarrow>
        (\<exists>fr1'. enter (do_rebind w h b [Dict T] []) h' = Some fr1' \<and>
           get_bound_joystick_event (joy_map fr1') b = Inr (Some (drop_noise T)) \<and>
           same_indexes (listener fr1') (listener fr'))) \<and>
     (\<forall>b old_key old_mod new_key new_mod. get_bound_key (key_map fr) b = Inr (old_key, old_mod) \<longrightarrow>
        (\<exists>fr1'. enter (do_rebind w h b [Val new_key, new_mod] []) h' = Some fr1' \<and>
           get_bound_key (key_map fr1') b = Inr (new_key, new_mod) \<and>
           same_indexes (listener fr1') (listener fr'))) \<and>
     (\<forall>b. map_of (key_hooks (listener fr)) b \<noteq> None \<longrightarrow>
        (\<exists>fr1'. enter (do_clear_bind w h b True) h' = Some fr1' \<and>
           b \<notin> set (key_names (key_map fr1')) \<and>
           (joy_invariant (joy_map fr) \<longrightarrow> b \<notin> set (bind_names (joy_map fr1'))) \<and>
           same_indexes (listener fr1') (listener fr')))"
proof -
  from assms(1) have w: "well_formed w" by (rule reachable_well_formed)
  note other = call_other_listener[OF w assms(2,3,4)]
  note same = call_same_listener[OF w assms(3)]
  from assms(3) obtain d where d: "map_of (instance_dicts w) h = Some d"
    by (auto dest: enter_SomeD)
  from assms(4) obtain d' where d': "map_of (instance_dicts w) h' = Some d'"
    by (auto dest: enter_SomeD)
  from w obtain km jm where c:
    "map_of (class_dict w) ''key_map'' = Some (KeyMapAttr km)"
    "map_of (class_dict w) ''joy_map'' = Some (JoyMapAttr jm)"
    by (rule well_formedD)
  have tables: "key_map fr' = key_map fr \<and> joy_map fr' = joy_map fr"
  proof -
    from well_formed_instance[OF w d] obtain hn kh cl cb ac where f:
      "map_of d ''key_map'' = None" "map_of d ''joy_map'' = None"
      "map_of d ''handle'' = Some (HandleAttr hn)"
      "map_of d ''_key_hooks'' = Some (FuncIndexAttr kh)"
      "map_of d ''_class_listeners'' = Some (MethIndexAttr cl)"
      "map_of d ''_class_listener_binds'' = Some (InverseAttr cb)"
      "map_of d ''_assigned_classes'' = Some (ClassesAttr ac)"
      by (rule listener_dictD)
    from well_formed_instance[OF w d'] obtain hn' kh' cl' cb' ac' where f':
      "map_of d' ''key_map'' = None" "map_of d' ''joy_map'' = None"
      "map_of d' ''handle'' = Some (HandleAttr hn')"
      "map_of d' ''_key_hooks'' = Some (FuncIndexAttr kh')"
      "map_of d' ''_class_listeners'' = Some (MethIndexAttr cl')"
      "map_of d' ''_class_listener_binds'' = Some (InverseAttr cb')"
      "map_of d' ''_assigned_classes'' = Some (ClassesAttr ac')"
      by (rule listener_dictD)
    from assms(3) enter_listener_dict[OF d f(1,2) c f(3-7)]
    have 1: "key_map fr = km \<and> joy_map fr = jm" by auto
    from assms(4) enter_listener_dict[OF d' f'(1,2) c f'(3-7)]
    have 2: "key_map fr' = km \<and> joy_map fr' = jm" by auto
    from 1 2 show ?thesis by simp
  qed
  have own: "\<forall>d. map_of (instance_dicts w) h' = Some d \<longrightarrow>
        map_of d ''key_map'' = None \<and> map_of d ''joy_map'' = None \<and>
        map_of d ''_key_hooks'' \<noteq> None \<and> map_of d ''_class_listeners'' \<noteq> None \<and>
        map_of d ''_class_listener_binds'' \<noteq> None"
  proof (intro allI impI)
    fix dd
    assume "map_of (instance_dicts w) h' = Some dd"
    from well_formed_instance[OF w this] obtain hn kh cl cb ac where
      "map_of dd ''key_map'' = None" "map_of dd ''joy_map'' = None"
      "map_of dd ''handle'' = Some (HandleAttr hn)"
      "map_of dd ''_key_hooks'' = Some (FuncIndexAttr kh)"
      "map_of dd ''_class_listeners'' = Some (MethIndexAttr cl)"
      "map_of dd ''_class_listener_binds'' = Some (InverseAttr cb)"
      "map_of dd ''_assigned_classes'' = Some (ClassesAttr ac)"
      by (rule listener_dictD)
    then show "map_of dd ''key_map'' = None \<and> map_of dd ''joy_map'' = None \<and>
        map_of dd ''_key_hooks'' \<noteq> None \<and> map_of dd ''_class_listeners'' \<noteq> None \<and>
        map_of dd ''_class_listener_binds'' \<noteq> None"
      by simp
  qed
  have obs: "\<exists>fr1'. enter w' h' = Some fr1' \<and> key_map fr1' = key_map fr1 \<and>
        joy_map fr1' = joy_map fr1 \<and> (\<forall>ev. resolved_binds fr1' ev = resolved_binds fr1 ev) \<and>
        same_indexes (listener fr1') (listener fr')"
    if "enter w' h' = Some \<lparr>key_map = key_map fr1, joy_map = joy_map fr1, logged = logged fr1,
          listener = listener fr'\<rparr>" for w' fr1
  proof -
    let ?F = "\<lparr>key_map = key_map fr1, joy_map = joy_map fr1, logged = logged fr1,
          listener = listener fr'\<rparr>"
    have r: "\<forall>ev. resolved_binds ?F ev = resolved_binds fr1 ev"
      by (intro allI resolved_binds_tables) simp_all
    have i: "same_indexes (listener ?F) (listener fr')"
      by (simp add: same_indexes_def)
    from that r i show ?thesis by (intro exI[of _ ?F]) simp
  qed
  have bnd: "(\<exists>fr1'. enter (do_bind w h n args kwds r) h' = Some fr1' \<and>
           key_map fr1' = key_map fr1 \<and> joy_map fr1' = joy_map fr1 \<and>
           (n \<in> set (key_names (key_map fr1')) \<or> n \<in> set (bind_names (joy_map fr1'))) \<and>
           (\<forall>ev. resolved_binds fr1' ev = resolved_binds fr1 ev) \<and>
           same_indexes (listener fr1') (listener fr')) \<and>
        (\<exists>frh ty. enter (do_bind w h n args kwds r) h = Some frh \<and>
           r \<in> set (hooks_for (key_hooks (listener frh)) n (\<not> runs_sequential r) ty))"
    if m: "bind_responder n args kwds r fr = Inr fr1" for n args kwds r fr1
  proof -
    from obs[OF other[of "bind_responder n args kwds r" fr1, OF m]]
    obtain fr1' where o: "enter (do_bind w h n args kwds r) h' = Some fr1'"
      "key_map fr1' = key_map fr1" "joy_map fr1' = joy_map fr1"
      "\<forall>ev. resolved_binds fr1' ev = resolved_binds fr1 ev"
      "same_indexes (listener fr1') (listener fr')"
      unfolding do_bind_def by blast
    from bind_responder_registers[OF m] obtain ty where
      reg: "n \<in> set (key_names (key_map fr1)) \<or> n \<in> set (bind_names (joy_map fr1))"
      and hk: "r \<in> set (hooks_for (key_hooks (listener fr1)) n (\<not> runs_sequential r) ty)"
      by blast
    have 1: "\<exists>fr1'. enter (do_bind w h n args kwds r) h' = Some fr1' \<and>
           key_map fr1' = key_map fr1 \<and> joy_map fr1' = joy_map fr1 \<and>
           (n \<in> set (key_names (key_map fr1')) \<or> n \<in> set (bind_names (joy_map fr1'))) \<and>
           (\<forall>ev. resolved_binds fr1' ev = resolved_binds fr1 ev) \<and>
           same_indexes (listener fr1') (listener fr')"
      using o reg by (intro exI[of _ fr1']) simp
    have 2: "\<exists>frh ty. enter (do_bind w h n args kwds r) h = Some frh \<and>
           r \<in> set (hooks_for (key_hooks (listener frh)) n (\<not> runs_sequential r) ty)"
      unfolding do_bind_def
      using same[of "bind_responder n args kwds r" fr1, OF m] hk
      by (intro exI[of _ "\<lparr>key_map = key_map fr1, joy_map = joy_map fr1, logged = logged fr1,
                 listener = (listener fr1)\<lparr>handle := handle (listener fr)\<rparr>\<rparr>"] exI[of _ ty]) simp
    from 1 2 show ?thesis by (rule conjI)
  qed
  have cap: "(\<exists>fr1'. enter (do_capture_method w h c m (n, k, md, ty, jd)) h' = Some fr1' \<and>
           key_map fr1' = key_map fr1 \<and> joy_map fr1' = joy_map fr1 \<and>
           (n \<in> set (key_names (key_map fr1')) \<or> n \<in> set (bind_names (joy_map fr1'))) \<and>
           (\<forall>ev. resolved_binds fr1' ev = resolved_binds fr1 ev) \<and>
           same_indexes (listener fr1') (listener fr')) \<and>
        (\<exists>frh t. enter (do_capture_method w h c m (n, k, md, ty, jd)) h = Some frh \<and>
           (m, c) \<in> set (hooks_for (class_listeners (listener frh)) n (\<not> runs_sequential m) t))"
    if m: "capture_method fr c m (n, k, md, ty, jd) = Inr fr1" for c m n k md ty jd fr1
  proof -
    from obs[OF other[of "\<lambda>fr. capture_method fr c m (n, k, md, ty, jd)" fr1, OF m]]
    obtain fr1' where o: "enter (do_capture_method w h c m (n, k, md, ty, jd)) h' = Some fr1'"
      "key_map fr1' = key_map fr1" "joy_map fr1' = joy_map fr1"
      "\<forall>ev. resolved_binds fr1' ev = resolved_binds fr1 ev"
      "same_indexes (listener fr1') (listener fr')"
      unfolding do_capture_method_def by blast
    from capture_method_registers[OF m] obtain t where
      reg: "n \<in> set (key_names (key_map fr1)) \<or> n \<in> set (bind_names (joy_map fr1))"
      and hk: "(m, c) \<in> set (hooks_for (class_listeners (listener fr1)) n (\<not> runs_sequential m) t)"
      by blast
    have 1: "\<exists>fr1'. enter (do_capture_method w h c m (n, k, md, ty, jd)) h' = Some fr1' \<and>
           key_map fr1' = key_map fr1 \<and> joy_map fr1' = joy_map fr1 \<and>
           (n \<in> set (key_names (key_map fr1')) \<or> n \<in> set (bind_names (joy_map fr1'))) \<and>
           (\<forall>ev. resolved_binds fr1' ev = resolved_binds fr1 ev) \<and>
           same_indexes (listener fr1') (listener fr')"
      using o reg by (intro exI[of _ fr1']) simp
    have 2: "\<exists>frh t. enter (do_capture_method w h c m (n, k, md, ty, jd)) h = Some frh \<and>
           (m, c) \<in> set (hooks_for (class_listeners (listener frh)) n (\<not> runs_sequential m) t)"
      unfolding do_capture_method_def
      using same[of "\<lambda>fr. capture_method fr c m (n, k, md, ty, jd)" fr1, OF m] hk
      by (intro exI[of _ "\<lparr>key_map = key_map fr1, joy_map = joy_map fr1, logged = logged fr1,
                 listener = (listener fr1)\<lparr>handle := handle (listener fr)\<rparr>\<rparr>"] exI[of _ t]) simp
    from 1 2 show ?thesis by (rule conjI)
  qed
  have reb: "\<exists>fr1'. enter (do_rebind w h b args kwds) h' = Some fr1' \<and>
           key_map fr1' = key_map fr1 \<and> joy_map fr1' = joy_map fr1 \<and>
           (\<forall>ev. resolved_binds fr1' ev = resolved_binds fr1 ev) \<and>
           same_indexes (listener fr1') (listener fr')"
    if m: "rebind fr b args kwds = Inr (old, fr1)" for b args kwds old fr1
  proof -
    have m': "(\<lambda>fr. case rebind fr b args kwds of Inl e \<Rightarrow> Inl e | Inr (old_bind, fr') \<Rightarrow> Inr fr') fr
        = Inr fr1"
      by (simp add: m)
    from obs[OF other[of "\<lambda>fr. case rebind fr b args kwds of Inl e \<Rightarrow> Inl e | Inr (old_bind, fr') \<Rightarrow> Inr fr'" fr1, OF m']]
    show ?thesis unfolding do_rebind_def .
  qed
  have rebj: "\<exists>fr1'. enter (do_rebind w h b [Dict T] []) h' = Some fr1' \<and>
           get_bound_joystick_event (joy_map fr1') b = Inr (Some (drop_noise T)) \<and>
           same_indexes (listener fr1') (listener fr')"
    if "joy_invariant (joy_map fr)" "get_bound_joystick_event (joy_map fr) b = Inr old" "wf_dict T"
    for b T old
  proof -
    from rebind_joystick_then_get[OF that] obtain fr1 where
      r: "rebind fr b [Dict T] [] = Inr (JoyTrigger old, fr1)"
      and g: "get_bound_joystick_event (joy_map fr1) b = Inr (Some (drop_noise T))"
      by blast
    from reb[OF r] obtain fr1' where o: "enter (do_rebind w h b [Dict T] []) h' = Some fr1'"
      "joy_map fr1' = joy_map fr1" "same_indexes (listener fr1') (listener fr')"
      by blast
    from o g show ?thesis by (intro exI[of _ fr1']) simp
  qed
  have rebk: "\<exists>fr1'. enter (do_rebind w h b [Val new_key, new_mod] []) h' = Some fr1' \<and>
           get_bound_key (key_map fr1') b = Inr (new_key, new_mod) \<and>
           same_indexes (listener fr1') (listener fr')"
    if "get_bound_key (key_map fr) b = Inr (old_key, old_mod)" for b old_key old_mod new_key new_mod
  proof -
    from rebind_key_then_get[OF that, of new_key new_mod] obtain fr1 where
      r: "rebind fr b [Val new_key, new_mod] [] = Inr (KeyTrigger old_key old_mod, fr1)"
      and g: "get_bound_key (key_map fr1) b = Inr (new_key, new_mod)"
      by blast
    from reb[OF r] obtain fr1' where o: "enter (do_rebind w h b [Val new_key, new_mod] []) h' = Some fr1'"
      "key_map fr1' = key_map fr1" "same_indexes (listener fr1') (listener fr')"
      by blast
    from o g show ?thesis by (intro exI[of _ fr1']) simp
  qed
  have clr: "\<exists>fr1'. enter (do_clear_bind w h b True) h' = Some fr1' \<and>
           b \<notin> set (key_names (key_map fr1')) \<and>
           (joy_invariant (joy_map fr) \<longrightarrow> b \<notin> set (bind_names (joy_map fr1'))) \<and>
           same_indexes (listener fr1') (listener fr')"
    if "map_of (key_hooks (listener fr)) b \<noteq> None" for b
  proof -
    have m: "(\<lambda>fr. Inr (clear_bind fr b True)) fr = Inr (clear_bind fr b True)"
      by simp
    from obs[OF other[of "\<lambda>fr. Inr (clear_bind fr b True)" "clear_bind fr b True", OF m]]
    obtain fr1' where o: "enter (do_clear_bind w h b True) h' = Some fr1'"
      "key_map fr1' = key_map (clear_bind fr b True)" "joy_map fr1' = joy_map (clear_bind fr b True)"
      "same_indexes (listener fr1') (listener fr')"
      unfolding do_clear_bind_def by blast
    from o clear_bind_eliminates[OF that] show ?thesis
      by (intro exI[of _ fr1']) simp
  qed
  show ?thesis
    apply (intro conjI)
    subgoal using tables by simp
    subgoal using tables by simp
    subgoal by (rule own)
    subgoal by (intro allI impI) (rule bnd)
    subgoal by (intro allI impI) (rule cap)
    subgoal by (intro allI impI) (rule reb)
    subgoal by (intro allI impI, elim conjE) (rule rebj)
    subgoal by (intro allI impI) (rule rebk)
    subgoal by (intro allI impI) (rule clr)
    done
qed

text \<open>
  Witness for C10: the listeners \<open>a\<close> and \<open>b\<close> are made by \<open>getKeyListener\<close>; \<open>a\<close> binds \<open>fire\<close>
  to button 0 with a handler. Listener \<open>b\<close> then resolves a press of button 0 to the bind
  \<open>fire\<close>, and its three indexes are still empty.
\<close>

theorem tables_shared_indexes_private_witness:
  "reachable (getKeyListener (getKeyListener KeyListener_class ''a'') ''b'') \<and>
   ''b'' \<noteq> ''a'' \<and>
   enter (getKeyListener (getKeyListener KeyListener_class ''a'') ''b'') ''a''
     = Some \<lparr>key_map = [], joy_map = [], logged = [], listener = KeyListener_init ''a''\<rparr> \<and>
   enter (getKeyListener (getKeyListener KeyListener_class ''a'') ''b'') ''b''
     = Some \<lparr>key_map = [], joy_map = [], logged = [], listener = KeyListener_init ''b''\<rparr> \<and>
   bind_responder ''fire'' [Dict [(PStr ''button'', PInt 0)]] [] (Callable ''on_fire'' False)
     \<lparr>key_map = [], joy_map = [], logged = [], listener = KeyListener_init ''a''\<rparr>
   = Inr \<lparr>key_map = [], joy_map = [(Some [(PStr ''button'', PInt 0)], [''fire''])], logged = [],
          listener = \<lparr>handle = ''a'',
            key_hooks = [(''fire'', [(True, [(PInt JOYBUTTONDOWN, [Callable ''on_fire'' False])])])],
            class_listeners = [], class_listener_binds = [], assigned_classes = []\<rparr>\<rparr> \<and>
   (\<exists>fr1'. enter (do_bind (getKeyListener (getKeyListener KeyListener_class ''a'') ''b'') ''a''
                    ''fire'' [Dict [(PStr ''button'', PInt 0)]] [] (Callable ''on_fire'' False)) ''b''
            = Some fr1' \<and>
          joy_map fr1' = [(Some [(PStr ''button'', PInt 0)], [''fire''])] \<and>
          resolved_binds fr1'
            \<lparr>etype = JOYBUTTONDOWN,
             edict = [(PStr ''joy'', PInt 0), (PStr ''instance_id'', PInt 0), (PStr ''button'', PInt 0)]\<rparr>
            = Inr [''fire''] \<and>
          key_hooks (listener fr1') = [] \<and> class_listeners (listener fr1') = [] \<and>
          class_listener_binds (listener fr1') = [])"
proof -
  let ?w = "getKeyListener (getKeyListener KeyListener_class ''a'') ''b''"
  let ?fa = "\<lparr>key_map = [], joy_map = [], logged = [], listener = KeyListener_init ''a''\<rparr>"
  let ?fb = "\<lparr>key_map = [], joy_map = [], logged = [], listener = KeyListener_init ''b''\<rparr>"
  let ?fr1 = "\<lparr>key_map = [], joy_map = [(Some [(PStr ''button'', PInt 0)], [''fire''])], logged = [],
          listener = \<lparr>handle = ''a'',
            key_hooks = [(''fire'', [(True, [(PInt JOYBUTTONDOWN, [Callable ''on_fire'' False])])])],
            class_listeners = [], class_listener_binds = [], assigned_classes = []\<rparr>\<rparr>"
  let ?ev = "\<lparr>etype = JOYBUTTONDOWN,
             edict = [(PStr ''joy'', PInt 0), (PStr ''instance_id'', PInt 0), (PStr ''button'', PInt 0)]\<rparr>"
  have r: "reachable ?w"
    by (intro reachable.get_listener reachable.class_body)
  have n: "''b'' \<noteq> ''a''" by simp
  have ea: "enter ?w ''a'' = Some ?fa" and eb: "enter ?w ''b'' = Some ?fb"
    by (simp_all add: getKeyListener_def KeyListener_class_def init_dict_def enter_def
        getattr_self_def as_key_map_def as_joy_map_def as_handle_def as_func_index_def
        as_meth_index_def as_inverse_def as_classes_def KeyListener_init_def)
  have m: "bind_responder ''fire'' [Dict [(PStr ''button'', PInt 0)]] [] (Callable ''on_fire'' False) ?fa
      = Inr ?fr1"
    by (simp add: bind_responder_def bind_def dict_get_def is_dict_def JoyMap_generate_bind_def
        convert_event_def invalid_params_def has_key_def
        hashable_def decorator_def hooks_for_def index_put_def KeyListener_init_def)
  have rv: "resolved_binds ?fr1 ?ev = Inr [''fire'']"
    by (simp add: resolved_binds_def getattr_event_def dict_get_def
        JoyMap_get_def convert_event_def invalid_params_def)
  note t = tables_shared_indexes_private[OF r n ea eb]
  note b = t[THEN conjunct2, THEN conjunct2, THEN conjunct2, THEN conjunct1, rule_format, OF m,
      THEN conjunct1]
  from b obtain fr1' where o: "enter (do_bind ?w ''a'' ''fire'' [Dict [(PStr ''button'', PInt 0)]] []
        (Callable ''on_fire'' False)) ''b'' = Some fr1'"
    "joy_map fr1' = joy_map ?fr1"
    "\<forall>ev. resolved_binds fr1' ev = resolved_binds ?fr1 ev"
    "same_indexes (listener fr1') (listener ?fb)"
    by blast
  have x: "\<exists>fr1'. enter (do_bind ?w ''a'' ''fire'' [Dict [(PStr ''button'', PInt 0)]] []
        (Callable ''on_fire'' False)) ''b'' = Some fr1' \<and>
          joy_map fr1' = [(Some [(PStr ''button'', PInt 0)], [''fire''])] \<and>
          resolved_binds fr1' ?ev = Inr [''fire''] \<and>
          key_hooks (listener fr1') = [] \<and> class_listeners (listener fr1') = [] \<and>
          class_listener_binds (listener fr1') = []"
    using o rv by (intro exI[of _ fr1']) (simp add: same_indexes_def KeyListener_init_def)
  from r n ea eb m x show ?thesis by (intro conjI)
qed

end
